theory Spec2Isabelle
  imports Complex_Main "HOL-Library.RBT" "HOL-Library.Word"
begin

section \<open>Machine types and failures\<close>

text \<open>
  The examples are C and C++ clients of the Gmsh API. Machine types are modelled as follows:
  \<^item> \<open>std::size_t\<close> is a 64-bit word, C++ \<open>int\<close> a 32-bit word read in two's complement;
    the conversion \<open>size_t \<rightarrow> int\<close>, by which a node tag enters the \<open>int\<close> field of
    \<open>myVertex\<close>, keeps the low 32 bits (\<open>ucast\<close>), and the conversion \<open>int \<rightarrow> size_t\<close>, by
    which that field becomes a key again, extends the sign (\<open>scast\<close>);
  \<^item> \<open>double\<close> is modelled by \<open>real\<close>: rounding, infinities and NaN are not represented;
  \<^item> \<open>std::map<std::size_t, T>\<close> is a red-black tree keyed by 64-bit words, iterated in
    increasing (unsigned) key order (\<open>RBT.entries\<close>);
  \<^item> a pointer \<open>T *\<close> to an object that is never modified after its construction is a
    \<open>T option\<close>, with \<open>None\<close> the null pointer;
  \<^item> undefined behaviour (a null dereference, a read past the end of a vector, the
    dereference of an \<open>end()\<close> iterator, an integer division by zero, a conversion of a
    double that does not fit an \<open>int\<close>) and \<open>exit\<close> are values of the type \<open>failure\<close>.
\<close>

type_synonym size_t = "64 word"
type_synonym c_int = "32 word"
type_synonym double = real
type_synonym 'a ptr = "'a option"

datatype failure =
    NullDeref
  | OutOfRange
  | EndDeref
  | DivByZero
  | BadConversion
  | Exited string int

section \<open>adapt\_mesh.cpp\<close>

subsection \<open>The classes myVertex, myElement and myMesh\<close>

record myVertex =
  v_tag :: c_int
  v_x :: double
  v_y :: double
  v_z :: double

text \<open>The constructor \<open>myVertex(int tag, double x, double y, double z)\<close>.\<close>

definition new_myVertex :: "c_int \<Rightarrow> double \<Rightarrow> double \<Rightarrow> double \<Rightarrow> myVertex" where
  "new_myVertex tag x y z = \<lparr>v_tag = tag, v_x = x, v_y = y, v_z = z\<rparr>"

text \<open>\<open>myVertex::distance\<close>; \<open>std::pow(d, 2)\<close> is the square.\<close>

definition distance :: "myVertex \<Rightarrow> myVertex \<Rightarrow> double" where
  "distance this other =
     sqrt ((v_x this - v_x other)\<^sup>2 + (v_y this - v_y other)\<^sup>2 + (v_z this - v_z other)\<^sup>2)"

record myElement =
  e_tag :: c_int
  e_nodes :: "myVertex ptr list"
  e_qu :: "double list"
  e_qv :: "double list"
  e_qw :: "double list"
  e_qweight :: "double list"
  e_qx :: "double list"
  e_qy :: "double list"
  e_qz :: "double list"
  e_qdet :: "double list"
  e_qjac :: "double list"

definition maxEdge_msg :: string where
  "maxEdge_msg = ''maxEdge only implemented for 3-node triangles''"

text \<open>
  \<open>myElement::maxEdge\<close>: with three nodes the largest of the three distances, otherwise
  the message is printed and the process exits with status 1.
\<close>

definition maxEdge :: "myElement \<Rightarrow> failure + double" where
  "maxEdge e =
     (if length (e_nodes e) = 3 then
        (case (e_nodes e ! 0, e_nodes e ! 1, e_nodes e ! 2) of
           (Some n0, Some n1, Some n2) \<Rightarrow>
             (let a = distance n0 n1; b = distance n0 n2; c = distance n1 n2
              in Inr (max a (max b c)))
         | _ \<Rightarrow> Inl NullDeref)
      else Inl (Exited maxEdge_msg 1))"

record myMesh =
  m_nodes :: "(size_t, myVertex ptr) rbt"
  m_elements :: "(size_t, myElement ptr) rbt"

subsection \<open>The public member functions, with the object they are called on\<close>

text \<open>
  Every public member function of the three classes other than the constructors, as a
  call on an object: the call returns a value together with the object as it is after
  the call. All of them are declared \<open>const\<close> in the source; \<open>maxEdge\<close> may exit.
\<close>

datatype myVertex_op = V_tag | V_x | V_y | V_z | V_distance myVertex

datatype myElement_op =
  E_tag | E_nodes | E_qu | E_qv | E_qw | E_qweight | E_qx | E_qy | E_qz | E_qdet | E_qjac | E_maxEdge

datatype myMesh_op = M_nodes | M_elements

datatype ret =
    RetInt c_int
  | RetDouble double
  | RetDoubles "double list"
  | RetVertices "myVertex ptr list"
  | RetNodeMap "(size_t, myVertex ptr) rbt"
  | RetElementMap "(size_t, myElement ptr) rbt"

fun myVertex_call :: "myVertex \<Rightarrow> myVertex_op \<Rightarrow> ret \<times> myVertex" where
  "myVertex_call this V_tag = (RetInt (v_tag this), this)"
| "myVertex_call this V_x = (RetDouble (v_x this), this)"
| "myVertex_call this V_y = (RetDouble (v_y this), this)"
| "myVertex_call this V_z = (RetDouble (v_z this), this)"
| "myVertex_call this (V_distance other) = (RetDouble (distance this other), this)"

fun myElement_call :: "myElement \<Rightarrow> myElement_op \<Rightarrow> failure + (ret \<times> myElement)" where
  "myElement_call this E_tag = Inr (RetInt (e_tag this), this)"
| "myElement_call this E_nodes = Inr (RetVertices (e_nodes this), this)"
| "myElement_call this E_qu = Inr (RetDoubles (e_qu this), this)"
| "myElement_call this E_qv = Inr (RetDoubles (e_qv this), this)"
| "myElement_call this E_qw = Inr (RetDoubles (e_qw this), this)"
| "myElement_call this E_qweight = Inr (RetDoubles (e_qweight this), this)"
| "myElement_call this E_qx = Inr (RetDoubles (e_qx this), this)"
| "myElement_call this E_qy = Inr (RetDoubles (e_qy this), this)"
| "myElement_call this E_qz = Inr (RetDoubles (e_qz this), this)"
| "myElement_call this E_qdet = Inr (RetDoubles (e_qdet this), this)"
| "myElement_call this E_qjac = Inr (RetDoubles (e_qjac this), this)"
| "myElement_call this E_maxEdge =
     (case maxEdge this of Inl x \<Rightarrow> Inl x | Inr h \<Rightarrow> Inr (RetDouble h, this))"

fun myMesh_call :: "myMesh \<Rightarrow> myMesh_op \<Rightarrow> ret \<times> myMesh" where
  "myMesh_call this M_nodes = (RetNodeMap (m_nodes this), this)"
| "myMesh_call this M_elements = (RetElementMap (m_elements this), this)"

subsection \<open>std::map::operator[]\<close>


subsection \<open>getKeysValues\<close>

text \<open>
  The loop of \<open>getKeysValues\<close> over the map's entries: \<open>keys.push_back(it->first)\<close> and
  \<open>values.push_back(std::vector<double>(1, it->second))\<close>.
\<close>

fun getKeysValues_loop ::
  "(size_t \<times> double) list \<Rightarrow> size_t list \<times> double list list \<Rightarrow> size_t list \<times> double list list"
where
  "getKeysValues_loop [] kv = kv"
| "getKeysValues_loop ((k, v) # rest) (keys, vals) =
     getKeysValues_loop rest (keys @ [k], vals @ [replicate 1 v])"

text \<open>
  \<open>getKeysValues(f, keys, values)\<close>: both vectors are cleared, then filled; the result is the
  final contents of \<open>keys\<close> and \<open>values\<close>.
\<close>

definition getKeysValues ::
  "(size_t, double) rbt \<Rightarrow> size_t list \<Rightarrow> double list list \<Rightarrow> size_t list \<times> double list list"
where
  "getKeysValues f keys vals =
     (let keys1 = []; vals1 = []
      in getKeysValues_loop (RBT.entries f) (keys1, vals1))"

subsection \<open>computeInterpolationError\<close>







subsection \<open>computeSizeField\<close>

text \<open>
  \<open>std::pow\<close> on doubles, as the real power; the NaN that C++ returns for a negative base
  and a fractional exponent is not represented.
\<close>

definition std_pow :: "double \<Rightarrow> double \<Rightarrow> double" where
  "std_pow x y = x powr y"

text \<open>The first loop: \<open>fact += std::pow(e, 2. / (1. + a))\<close> for every entry of \<open>err_ele\<close>.\<close>

fun fact_loop :: "double \<Rightarrow> (size_t \<times> double) list \<Rightarrow> double \<Rightarrow> double" where
  "fact_loop a [] fct = fct"
| "fact_loop a ((k, e) # rest) fct = fact_loop a rest (fct + std_pow e (2 / (1 + a)))"

text \<open>
  The second loop. \<open>mesh.elements().find(it->first)\<close> is dereferenced without a test
  against \<open>end()\<close>; \<open>maxEdge\<close> may exit the process.
\<close>

fun size_loop ::
  "myMesh \<Rightarrow> double \<Rightarrow> double \<Rightarrow> c_int \<Rightarrow> double \<Rightarrow> (size_t \<times> double) list \<Rightarrow>
   (size_t, double) rbt \<Rightarrow> failure + (size_t, double) rbt"
where
  "size_loop mesh a d N fct [] sf_ele = Inr sf_ele"
| "size_loop mesh a d N fct ((k, e) # rest) sf_ele =
     (let ri = std_pow e (2 / (2 * (1 + a))) * std_pow a (1 / (d * (1 + a))) *
               std_pow ((1 + a) * real_of_int (sint N) / fct) (1 / d)
      in case RBT.lookup (m_elements mesh) k of
           None \<Rightarrow> Inl EndDeref
         | Some None \<Rightarrow> Inl NullDeref
         | Some (Some el) \<Rightarrow>
             (case maxEdge el of
                Inl x \<Rightarrow> Inl x
              | Inr h \<Rightarrow> size_loop mesh a d N fct rest (RBT.insert k (h / ri) sf_ele)))"

text \<open>
  \<open>computeSizeField(mesh, err_ele, N, sf_ele)\<close>; the result is the final contents of
  \<open>sf_ele\<close> (an object distinct from \<open>err_ele\<close>, as in \<open>main\<close>).
\<close>

definition computeSizeField ::
  "myMesh \<Rightarrow> (size_t, double) rbt \<Rightarrow> c_int \<Rightarrow> (size_t, double) rbt \<Rightarrow>
   failure + (size_t, double) rbt"
where
  "computeSizeField mesh err_ele N sf_ele =
     (let a = 2; d = 2;
          fct0 = fact_loop a (RBT.entries err_ele) 0;
          fct = fct0 * (std_pow a ((2 + a) / (1 + a)) + std_pow a (1 / (1 + a)))
      in size_loop mesh a d N fct (RBT.entries err_ele) sf_ele)"

section \<open>custom\_gui.cpp: the worker routine compute\<close>

text \<open>\<open>std::to_string\<close> on an \<open>int\<close>: the decimal digits, with a minus sign when negative.\<close>

fun digits_of :: "nat \<Rightarrow> string" where
  "digits_of n =
     (if n < 10 then [char_of (48 + n)]
      else digits_of (n div 10) @ [char_of (48 + n mod 10)])"

definition to_string :: "int \<Rightarrow> string" where
  "to_string i = (if i < 0 then CHR ''-'' # digits_of (nat (- i)) else digits_of (nat i))"

text \<open>
  The calls that \<open>compute\<close> makes into Gmsh, in the order in which it makes them:
  \<open>gmsh::onelab::getNumber\<close>, \<open>setString\<close> and \<open>setNumber\<close> with the parameter name (and the
  values written), \<open>gmsh::fltk::lock\<close>, \<open>unlock\<close> and \<open>awake\<close>, \<open>gmsh::logger::write\<close> with
  its message, and \<open>gmsh::logger::getWallTime\<close> with the time it returned.
\<close>

datatype event =
    GetNumber string
  | SetString string "string list"
  | SetNumber string "double list"
  | Lock
  | Unlock
  | LoggerWrite string
  | GetWallTime double
  | Awake string

text \<open>
  What \<open>compute\<close> reads from outside: the values of the two ONELAB numbers, the global
  flag \<open>stop_computation\<close> as read at the head of iteration \<open>j\<close> (another thread sets it),
  and the wall clock, \<open>wall_time i\<close> being the result of the \<open>i\<close>-th call of
  \<open>getWallTime\<close> (counted from 0).
\<close>

record compute_env =
  iterations :: "double list"
  progress :: "double list"
  stop_computation :: "nat \<Rightarrow> bool"
  wall_time :: "nat \<Rightarrow> double"

text \<open>
  The local variables \<open>p\<close>, \<open>k\<close> and \<open>last_refresh\<close>, the number of \<open>getWallTime\<close> calls
  made so far, and the calls made so far.
\<close>

record loop_state =
  ls_p :: int
  ls_k :: double
  ls_last_refresh :: double
  ls_calls :: nat
  ls_trace :: "event list"

text \<open>\<open>static_cast<int>\<close> of a double: truncation towards zero, undefined out of range.\<close>

definition static_cast_int :: "double \<Rightarrow> failure + int" where
  "static_cast_int x =
     (let t = (if 0 \<le> x then \<lfloor>x\<rfloor> else \<lceil>x\<rceil>)
      in if - (2 ^ 31) \<le> t \<and> t < 2 ^ 31 then Inr t else Inl BadConversion)"

text \<open>
  The body of \<open>if(show && n > 1 && !(j % (n / 100)))\<close>. The constant \<open>0.1\<close> is the real
  number \<open>1/10\<close> here. \<open>getWallTime\<close> is called once in the test and once more when the
  test succeeds.
\<close>

definition report_progress :: "compute_env \<Rightarrow> string \<Rightarrow> loop_state \<Rightarrow> loop_state" where
  "report_progress env arg s =
     (let p = ls_p s + 1;
          tr = ls_trace s @
               [SetString arg [to_string p @ ''%''],
                Lock,
                LoggerWrite (arg @ '' progress '' @ to_string p @ ''%''),
                Unlock];
          t1 = wall_time env (ls_calls s)
      in if t1 - ls_last_refresh s > 1 / 10
         then (let t2 = wall_time env (ls_calls s + 1)
               in s\<lparr>ls_p := p, ls_last_refresh := t2, ls_calls := ls_calls s + 2,
                     ls_trace := tr @ [GetWallTime t1, GetWallTime t2, Awake ''update'']\<rparr>)
         else s\<lparr>ls_p := p, ls_calls := ls_calls s + 1, ls_trace := tr @ [GetWallTime t1]\<rparr>)"

text \<open>
  The loop \<open>for(int j = 0; j < n; j++)\<close> over the iterations that remain. \<open>n / 100\<close> is 0
  for \<open>1 < n < 100\<close>, and \<open>j % 0\<close> is undefined.
\<close>

fun compute_loop ::
  "compute_env \<Rightarrow> string \<Rightarrow> int \<Rightarrow> bool \<Rightarrow> nat list \<Rightarrow> loop_state \<Rightarrow> failure + loop_state"
where
  "compute_loop env arg n showp [] s = Inr s"
| "compute_loop env arg n showp (j # js) s =
     (if stop_computation env j then Inr s
      else
        (let s1 = s\<lparr>ls_k := sin (ls_k s) + cos (real j / 45)\<rparr>
         in if showp \<and> n > 1 then
              (if n div 100 = 0 then Inl DivByZero
               else if int j mod (n div 100) = 0
                    then compute_loop env arg n showp js (report_progress env arg s1)
                    else compute_loop env arg n showp js s1)
            else compute_loop env arg n showp js s1))"

text \<open>The state on entry of the loop, after the two \<open>getNumber\<close> calls.\<close>

definition compute_init :: loop_state where
  "compute_init =
     \<lparr>ls_p = 0, ls_k = 0, ls_last_refresh = 0, ls_calls = 0,
      ls_trace = [GetNumber ''My App/Iterations'', GetNumber ''My App/Show progress?'']\<rparr>"

text \<open>\<open>compute\<close> up to the end of its loop, and \<open>compute(arg)\<close> as the list of its calls.\<close>

definition compute_run :: "compute_env \<Rightarrow> string \<Rightarrow> failure + loop_state" where
  "compute_run env arg =
     (case (if iterations env \<noteq> [] then static_cast_int (iterations env ! 0) else Inr 1) of
        Inl x \<Rightarrow> Inl x
      | Inr n \<Rightarrow>
          (let showp = (progress env \<noteq> [] \<and> progress env ! 0 \<noteq> 0)
           in compute_loop env arg n showp [0 ..< nat n] compute_init))"

definition compute :: "compute_env \<Rightarrow> string \<Rightarrow> failure + event list" where
  "compute env arg =
     (case compute_run env arg of
        Inl x \<Rightarrow> Inl x
      | Inr s \<Rightarrow>
          Inr (ls_trace s @
               [SetNumber (arg @ '' result'') [ls_k s],
                SetString ''ONELAB/Action'' [''done computing''],
                Awake ''update'']))"

section \<open>The example programs as sequences of calls\<close>

text \<open>
  Each example is a \<open>main\<close> function that calls the Gmsh API. Such a program is
  transcribed as a list of statements:
  \<^item> \<open>Call f args\<close> is a call of the C++ API, which throws when the call fails;
  \<^item> \<open>CCall f args\<close> is a call of the C API with \<open>&ierr\<close> as last argument: it stores
    the error code of the call in \<open>ierr\<close>, 0 on success;
  \<^item> \<open>CCallNoErr f args\<close> is a call of the C API that passes no error pointer
    (\<open>gmshFinalize(NULL)\<close>, \<open>gmshFree(p)\<close>);
  \<^item> \<open>Printf\<close> and \<open>Eprintf\<close> print to \<open>stdout\<close> and \<open>stderr\<close>, with a format and arguments;
  \<^item> \<open>Try body handler\<close> is \<open>try { body } catch(...) { handler }\<close>;
  \<^item> \<open>IfErr body\<close> is \<open>if(ierr) { body }\<close>, also written \<open>if(ierr != 0)\<close>;
  \<^item> \<open>Return n\<close> returns from \<open>main\<close>, \<open>Exit e\<close> is \<open>exit(e)\<close>;
  \<^item> \<open>Undefined what\<close> is an operation with undefined behaviour.
  The arguments of a call are kept as the text of the source, a string literal without
  its quotes. An argument of \<open>printf\<close> is a number, the value of \<open>ierr\<close>, or the text of the
  source. The functions of one file share one variable \<open>ierr\<close>: each of them writes its
  own \<open>ierr\<close> before reading it.
\<close>

datatype expr = Num int | Str string | Ierr

datatype stmt =
    Call string string
  | CCall string string
  | CCallNoErr string string
  | Printf string "expr list"
  | Eprintf string "expr list"
  | Try "stmt list" "stmt list"
  | IfErr "stmt list"
  | Return int
  | Exit expr
  | Undefined string

text \<open>
  What a run does, in order: the API calls with the error code that the call gave
  (\<open>None\<close> when no error pointer was passed), the lines printed, and how the run ended:
  \<open>main\<close> returned, \<open>exit\<close> was called, an exception was not caught, or the behaviour
  was undefined.
\<close>

datatype obs =
    Api string string "int option"
  | Stdout string "string list"
  | Stderr string "string list"
  | Returned int
  | ExitedWith int
  | Terminated
  | Crashed string

text \<open>
  How control leaves a statement: to the next statement, by an exception, or because the
  run is over.
\<close>

datatype flow = Next | Thrown | Done

text \<open>The number of API calls made so far, the variable \<open>ierr\<close>, and what was done so far.\<close>

record run_state =
  rs_calls :: nat
  rs_ierr :: int
  rs_trace :: "obs list"

text \<open>
  The text that \<open>printf\<close> prints for an argument and the status that \<open>exit\<close> receives, for
  the current value of \<open>ierr\<close>; \<open>emit\<close> records one more observation.
\<close>

fun render :: "int \<Rightarrow> expr \<Rightarrow> string" where
  "render ierr (Num n) = to_string n"
| "render ierr (Str s) = s"
| "render ierr Ierr = to_string ierr"

fun exit_status :: "int \<Rightarrow> expr \<Rightarrow> int" where
  "exit_status ierr (Num n) = n"
| "exit_status ierr (Str s) = 0"
| "exit_status ierr Ierr = ierr"

definition emit :: "obs \<Rightarrow> run_state \<Rightarrow> run_state" where
  "emit e s = s\<lparr>rs_trace := rs_trace s @ [e]\<rparr>"

text \<open>
  The execution of a statement and of a statement list. The outcome of every API call
  comes from outside: \<open>code i\<close> is the error code of the \<open>i\<close>-th call of the run (counted
  from 0), and 0 means success.
\<close>

fun exec :: "(nat \<Rightarrow> int) \<Rightarrow> stmt \<Rightarrow> run_state \<Rightarrow> flow \<times> run_state"
and exec_list :: "(nat \<Rightarrow> int) \<Rightarrow> stmt list \<Rightarrow> run_state \<Rightarrow> flow \<times> run_state"
where
  "exec code (Call f a) s =
     (let c = code (rs_calls s);
          s' = emit (Api f a (Some c)) (s\<lparr>rs_calls := Suc (rs_calls s)\<rparr>)
      in if c \<noteq> 0 then (Thrown, s') else (Next, s'))"
| "exec code (CCall f a) s =
     (let c = code (rs_calls s)
      in (Next, emit (Api f a (Some c)) (s\<lparr>rs_calls := Suc (rs_calls s), rs_ierr := c\<rparr>)))"
| "exec code (CCallNoErr f a) s =
     (Next, emit (Api f a None) (s\<lparr>rs_calls := Suc (rs_calls s)\<rparr>))"
| "exec code (Printf fmt args) s = (Next, emit (Stdout fmt (map (render (rs_ierr s)) args)) s)"
| "exec code (Eprintf fmt args) s = (Next, emit (Stderr fmt (map (render (rs_ierr s)) args)) s)"
| "exec code (Try body handler) s =
     (case exec_list code body s of
        (Thrown, s') \<Rightarrow> exec_list code handler s'
      | r \<Rightarrow> r)"
| "exec code (IfErr body) s =
     (if rs_ierr s \<noteq> 0 then exec_list code body s else (Next, s))"
| "exec code (Return n) s = (Done, emit (Returned n) s)"
| "exec code (Exit e) s = (Done, emit (ExitedWith (exit_status (rs_ierr s) e)) s)"
| "exec code (Undefined what) s = (Done, emit (Crashed what) s)"
| "exec_list code [] s = (Next, s)"
| "exec_list code (x # xs) s =
     (case exec code x s of
        (Next, s') \<Rightarrow> exec_list code xs s'
      | r \<Rightarrow> r)"

text \<open>
  A run of \<open>main\<close> from the start. Falling off the end of \<open>main\<close> returns 0; an exception
  that leaves \<open>main\<close> terminates the process.
\<close>

definition run :: "(nat \<Rightarrow> int) \<Rightarrow> stmt list \<Rightarrow> obs list" where
  "run code main =
     (case exec_list code main \<lparr>rs_calls = 0, rs_ierr = 0, rs_trace = []\<rparr> of
        (Next, s) \<Rightarrow> rs_trace s @ [Returned 0]
      | (Thrown, s) \<Rightarrow> rs_trace s @ [Terminated]
      | (Done, s) \<Rightarrow> rs_trace s)"

subsection \<open>The macro chk of test.c and onelab\_run\_auto.c\<close>

text \<open>
  \<open>chk(ierr)\<close> at a given line of a given function. The two files differ in the exit
  status only: \<open>exit(0)\<close> in \<open>test.c\<close>, \<open>exit(ierr)\<close> in \<open>onelab_run_auto.c\<close>.
\<close>

definition chk_format :: string where
  "chk_format =
     ''Error on line %i in function '' @ [CHR 0x27] @ ''%s'' @ [CHR 0x27] @
     '': gmsh function returned non-zero error code: %i\<newline>''"

definition chk :: "expr \<Rightarrow> int \<Rightarrow> string \<Rightarrow> stmt" where
  "chk status line func =
     IfErr [Eprintf chk_format [Num line, Str func, Ierr],
            CCallNoErr ''gmshFinalize'' ''NULL'',
            Exit status]"

subsection \<open>examples/api/simple.c\<close>

definition simple_c_main :: "stmt list" where
  "simple_c_main =
     [CCall ''gmshInitialize'' ''argc, argv, 1, 0'',
      CCall ''gmshModelAdd'' ''square'',
      CCall ''gmshModelGeoAddPoint'' ''0, 0, 0, 0.1, 1'',
      CCall ''gmshModelGeoAddPoint'' ''1, 0, 0, 0.1, 2'',
      CCall ''gmshModelGeoAddPoint'' ''1, 1, 0, 0.1, 3'',
      CCall ''gmshModelGeoAddPoint'' ''0, 1, 0, 0.1, 4'',
      CCall ''gmshModelGeoAddLine'' ''1, 2, 1'',
      CCall ''gmshModelGeoAddLine'' ''2, 3, 2'',
      CCall ''gmshModelGeoAddLine'' ''3, 4, 3'',
      CCall ''gmshModelGeoAddLine'' ''4, 1, -1'',
      CCall ''gmshModelGeoAddCurveLoop'' ''ll, 4, 1, 0'',
      CCall ''gmshModelGeoAddPlaneSurface'' ''s, 1, 6'',
      CCall ''gmshModelGeoSynchronize'' [],
      CCall ''gmshModelMeshGenerate'' ''2'',
      CCall ''gmshWrite'' ''square.msh'',
      Return 0]"

subsection \<open>examples/api/onelab\_run\_auto.c\<close>

definition onelab_run_auto_c_main :: "int \<Rightarrow> stmt list" where
  "onelab_run_auto_c_main argc =
     (if argc < 2 then
        [Printf ''Usage: %s file [options]\<newline>'' [Str ''argv[0]''],
         Return 0]
      else
        [CCall ''gmshInitialize'' ''0, 0, 1, 0'', chk Ierr 24 ''main'',
         CCall ''gmshOpen'' ''argv[1]'', chk Ierr 26 ''main'',
         CCall ''gmshOnelabRun'' '', '', chk Ierr 28 ''main'',
         CCall ''gmshOnelabGet'' ''&json, json, '', chk Ierr 30 ''main'',
         Printf ''%s'' [Str ''json''],
         CCall ''gmshFinalize'' [], chk Ierr 33 ''main'',
         Return 0])"

subsection \<open>examples/api/test.c\<close>

definition genGeometry :: "stmt list" where
  "genGeometry =
     [CCall ''gmshModelAdd'' ''square'', chk (Num 0) 16 ''genGeometry'',
      CCall ''gmshModelGeoAddPoint'' ''0,0,0,0.1,1'', chk (Num 0) 17 ''genGeometry'',
      CCall ''gmshModelGeoAddPoint'' ''1,0,0,0.1,2'', chk (Num 0) 18 ''genGeometry'',
      CCall ''gmshModelGeoAddPoint'' ''1,1,0,0.1,3'', chk (Num 0) 19 ''genGeometry'',
      CCall ''gmshModelGeoAddPoint'' ''0,1,0,0.1,4'', chk (Num 0) 20 ''genGeometry'',
      CCall ''gmshModelGeoAddLine'' ''1,2,1'', chk (Num 0) 21 ''genGeometry'',
      CCall ''gmshModelGeoAddLine'' ''2,3,2'', chk (Num 0) 22 ''genGeometry'',
      CCall ''gmshModelGeoAddLine'' ''3,4,3'', chk (Num 0) 23 ''genGeometry'',
      CCall ''gmshModelGeoAddLine'' ''4,1,-1'', chk (Num 0) 25 ''genGeometry'',
      Printf ''line4 received tag %i\<newline>\<newline>'' [Str ''line4''],
      CCall ''gmshModelGeoAddCurveLoop'' ''ll,4,1,0'', chk (Num 0) 28 ''genGeometry'',
      CCall ''gmshModelGeoAddPlaneSurface'' ''ll,1,6'', chk (Num 0) 30 ''genGeometry'',
      CCall ''gmshModelGeoSynchronize'' [], chk (Num 0) 31 ''genGeometry'']"

text \<open>
  The body of the loop over the element types of one entity in \<open>printMesh\<close>, for a type
  with \<open>nelementTags[i]\<close> elements and \<open>nvertexTags[i]\<close> node tags. The division
  \<open>nvertexTags[i]/nelementTags[i]\<close> is undefined when there is no element.
\<close>

definition printElements :: "nat \<times> nat \<Rightarrow> stmt list" where
  "printElements t =
     (case t of (nelementTags_i, nvertexTags_i) \<Rightarrow>
        [Printf ''  %lu elements of type %i : '' [Str ''nelementTags[i]'', Str ''types[i]'']] @
        (if nelementTags_i = 0 then [Undefined ''nvertexTags[i]/nelementTags[i]'']
         else
           concat (replicate (min nelementTags_i 3)
             ([Printf ''%lu ( '' [Str ''elementTags[i][j]'']] @
              replicate (nvertexTags_i div nelementTags_i)
                (Printf ''%lu '' [Str ''vertexTags[i][j*nnodesbyel+k]'']) @
              [Printf '') '' []])) @
           (if nelementTags_i > 3 then [Printf ''...'' []] else []) @
           [Printf ''\<newline>'' []]))"

text \<open>
  The body of the loop over the entities, for an entity given by the list of its element
  types (the API returns as many arrays of element tags and of node tags as there are
  types), and \<open>printMesh\<close> for the list of the entities of the model.
\<close>

definition printEntity :: "(nat \<times> nat) list \<Rightarrow> stmt list" where
  "printEntity types =
     [CCall ''gmshModelMeshGetElements''
        ''&types, &ntypes, &elementTags, &nelementTags, &nnelementTags, &vertexTags, &nvertexTags, &nnvertexTags,dimTags[ie*2+0], dimTags[ie*2+1]'',
      chk (Num 0) 49 ''printMesh'',
      Printf ''entity %i of dim %i\<newline>'' [Str ''dimTags[ie*2+1]'', Str ''dimTags[ie*2+0]'']] @
     concat (map printElements types) @
     [CCallNoErr ''gmshFree'' ''types''] @
     replicate (length types) (CCallNoErr ''gmshFree'' ''elementTags[i]'') @
     replicate (length types) (CCallNoErr ''gmshFree'' ''vertexTags[i]'') @
     [CCallNoErr ''gmshFree'' ''nelementTags'',
      CCallNoErr ''gmshFree'' ''nvertexTags'']"

definition printMesh :: "(nat \<times> nat) list list \<Rightarrow> stmt list" where
  "printMesh entities =
     [CCall ''gmshModelGetEntities'' ''&dimTags, &ndimTags, -1'', chk (Num 0) 39 ''printMesh''] @
     concat (map printEntity entities) @
     [CCallNoErr ''gmshFree'' ''dimTags'']"

definition genError :: "stmt list" where
  "genError =
     [Printf ''\<newline>** generate an error **\<newline>'' [],
      CCall ''gmshModelMeshGetElements'' ''NULL,NULL,NULL,NULL,NULL,NULL,NULL,NULL, 999, 999'',
      chk (Num 0) 81 ''genError'']"

definition test_c_main :: "(nat \<times> nat) list list \<Rightarrow> stmt list" where
  "test_c_main entities =
     [CCall ''gmshInitialize'' ''argc, argv, 1, 0'', chk (Num 0) 86 ''main''] @
     genGeometry @
     [CCall ''gmshModelMeshGenerate'' ''2'', chk (Num 0) 88 ''main'',
      CCall ''gmshWrite'' ''square.msh'', chk (Num 0) 89 ''main''] @
     printMesh entities @
     genError @
     [CCall ''gmshFinalize'' [], chk (Num 0) 92 ''main'']"

subsection \<open>The programs with an early exit\<close>

text \<open>
  \<open>tutorials/c/t16.c\<close> and the six C++ tutorials that have a \<open>try\<close> block, each up to the end
  of its early exit (\<open>t16.c\<close> lines 22 to 31, \<open>t7.cpp\<close> lines 17 to 26, \<open>t8.cpp\<close> lines 17 to
  44, \<open>t9.cpp\<close> lines 23 to 34, \<open>t16.cpp\<close> lines 19 to 36, \<open>t17.cpp\<close> lines 23 to 38, \<open>t20.cpp\<close>
  lines 20 to 33). The statements that follow in \<open>main\<close> are the parameter \<open>rest\<close>.
\<close>

definition t16_c_main :: "stmt list \<Rightarrow> stmt list" where
  "t16_c_main rest =
     [CCall ''gmshInitialize'' ''argc, argv, 1, 0'',
      CCall ''gmshModelAdd'' ''t16'',
      CCall ''gmshModelOccAddBox'' ''0, 0, 0, 1, 1, 1, 1'',
      IfErr [Printf ''Could not create OpenCASCADE shapes: bye!'' [],
             Return 0]] @
     rest"

definition t7_cpp_main :: "stmt list \<Rightarrow> stmt list" where
  "t7_cpp_main rest =
     [Call ''gmsh::initialize'' [],
      Try [Call ''gmsh::merge'' ''../t7_bgmesh.pos'']
          [Call ''gmsh::logger::write'' ''Could not load background mesh: bye!'',
           Call ''gmsh::finalize'' [],
           Return 0]] @
     rest"

definition t8_cpp_main :: "stmt list \<Rightarrow> stmt list" where
  "t8_cpp_main rest =
     [Call ''gmsh::initialize'' [],
      Call ''gmsh::model::add'' ''t8'',
      Call ''gmsh::model::geo::addPoint'' ''0, 0, 0, lc, 1'',
      Call ''gmsh::model::geo::addPoint'' ''.1, 0, 0, lc, 2'',
      Call ''gmsh::model::geo::addPoint'' ''.1, .3, 0, lc, 3'',
      Call ''gmsh::model::geo::addPoint'' ''0, .3, 0, lc, 4'',
      Call ''gmsh::model::geo::addLine'' ''1, 2, 1'',
      Call ''gmsh::model::geo::addLine'' ''3, 2, 2'',
      Call ''gmsh::model::geo::addLine'' ''3, 4, 3'',
      Call ''gmsh::model::geo::addLine'' ''4, 1, 4'',
      Call ''gmsh::model::geo::addCurveLoop'' ''{4, 1, -2, 3}, 1'',
      Call ''gmsh::model::geo::addPlaneSurface'' ''{1}, 1'',
      Call ''gmsh::model::geo::synchronize'' [],
      Try [Call ''gmsh::merge'' ''../view1.pos'',
           Call ''gmsh::merge'' ''../view1.pos'',
           Call ''gmsh::merge'' ''../view4.pos'']
          [Call ''gmsh::logger::write'' ''Could not load post-processing views: bye!'',
           Call ''gmsh::finalize'' [],
           Return 0]] @
     rest"

definition t9_cpp_main :: "stmt list \<Rightarrow> stmt list" where
  "t9_cpp_main rest =
     [Call ''gmsh::initialize'' [],
      Call ''gmsh::model::add'' ''t9'',
      Try [Call ''gmsh::merge'' ''../view3.pos'']
          [Call ''gmsh::logger::write'' ''Could not load post-processing views: bye!'',
           Call ''gmsh::finalize'' [],
           Return 0]] @
     rest"

definition t16_cpp_main :: "stmt list \<Rightarrow> stmt list" where
  "t16_cpp_main rest =
     [Call ''gmsh::initialize'' ''argc, argv'',
      Call ''gmsh::model::add'' ''t16'',
      Call ''gmsh::logger::start'' [],
      Try [Call ''gmsh::model::occ::addBox'' ''0, 0, 0, 1, 1, 1, 1'',
           Call ''gmsh::model::occ::addBox'' ''0, 0, 0, 0.5, 0.5, 0.5, 2'']
          [Call ''gmsh::logger::write'' ''Could not create OpenCASCADE shapes: bye!'',
           Return 0]] @
     rest"

definition t17_cpp_main :: "stmt list \<Rightarrow> stmt list" where
  "t17_cpp_main rest =
     [Call ''gmsh::initialize'' [],
      Call ''gmsh::model::add'' ''t17'',
      Call ''gmsh::model::occ::addRectangle'' ''-2, -2, 0, 4, 4'',
      Call ''gmsh::model::occ::synchronize'' [],
      Try [Call ''gmsh::merge'' ''../t17_bgmesh.pos'']
          [Call ''gmsh::logger::write'' ''Could not load background mesh: bye!'',
           Call ''gmsh::finalize'' [],
           Return 0]] @
     rest"

definition t20_cpp_main :: "stmt list \<Rightarrow> stmt list" where
  "t20_cpp_main rest =
     [Call ''gmsh::initialize'' ''argc, argv'',
      Call ''gmsh::model::add'' ''t20'',
      Try [Call ''gmsh::model::occ::importShapes'' ''../t20_data.step, v'']
          [Call ''gmsh::logger::write'' ''Could not load STEP file: bye!'',
           Call ''gmsh::finalize'' [],
           Return 0]] @
     rest"

section \<open>Specification-side notions for computeInterpolationError\<close>









section \<open>Specification-side notions for computeSizeField\<close>

text \<open>The key \<open>k\<close> is the key of an element of the mesh that has three non-null nodes.\<close>

definition triangle_at :: "myMesh \<Rightarrow> size_t \<Rightarrow> bool" where
  "triangle_at mesh k \<longleftrightarrow>
     (case RBT.lookup (m_elements mesh) k of
        Some (Some e) \<Rightarrow> length (e_nodes e) = 3 \<and> list_all (\<lambda>n. n \<noteq> None) (e_nodes e)
      | _ \<Rightarrow> False)"

section \<open>A sample mesh\<close>

text \<open>
  One triangle on the nodes 1, 2, 3 with a single quadrature point, and one two-node
  element whose second node pointer is null and whose quadrature arrays are ragged.
\<close>

definition sample_triangle :: myElement where
  "sample_triangle =
     \<lparr>e_tag = 10,
      e_nodes = [Some (new_myVertex 1 0 0 0), Some (new_myVertex 2 1 0 0), Some (new_myVertex 3 0 1 0)],
      e_qu = [1/3], e_qv = [1/3], e_qw = [0], e_qweight = [1/2],
      e_qx = [1/3], e_qy = [1/3], e_qz = [0], e_qdet = [-1],
      e_qjac = [1, 0, 0, 0, 1, 0, 0, 0, 1]\<rparr>"

definition sample_line :: myElement where
  "sample_line =
     \<lparr>e_tag = 11,
      e_nodes = [Some (new_myVertex 1 0 0 0), None],
      e_qu = [], e_qv = [], e_qw = [], e_qweight = [1],
      e_qx = [], e_qy = [], e_qz = [], e_qdet = [],
      e_qjac = []\<rparr>"

definition sample_mesh :: myMesh where
  "sample_mesh =
     \<lparr>m_nodes =
        RBT.insert 3 (Some (new_myVertex 3 0 1 0))
          (RBT.insert 2 (Some (new_myVertex 2 1 0 0))
            (RBT.insert 1 (Some (new_myVertex 1 0 0 0)) RBT.empty)),
      m_elements =
        RBT.insert 11 (Some sample_line) (RBT.insert 10 (Some sample_triangle) RBT.empty)\<rparr>"

section \<open>Specification-side notions for compute\<close>

text \<open>
  The lock is held after a list of calls when it contains more \<open>lock\<close> calls than
  \<open>unlock\<close> calls.
\<close>

definition lock_depth :: "event list \<Rightarrow> int" where
  "lock_depth tr =
     int (length (filter (\<lambda>e. e = Lock) tr)) - int (length (filter (\<lambda>e. e = Unlock) tr))"

definition lock_held :: "event list \<Rightarrow> bool" where
  "lock_held pre \<longleftrightarrow> 0 < lock_depth pre"

text \<open>
  The calls of one progress report: the percentage \<open>p\<close>, the first clock reading, and the
  second reading when the refresh is requested.
\<close>

definition progress_block :: "string \<Rightarrow> int \<times> double \<times> double option \<Rightarrow> event list" where
  "progress_block arg b =
     (case b of (p, t1, r) \<Rightarrow>
        [SetString arg [to_string p @ ''%''],
         Lock,
         LoggerWrite (arg @ '' progress '' @ to_string p @ ''%''),
         Unlock,
         GetWallTime t1] @
        (case r of None \<Rightarrow> [] | Some t2 \<Rightarrow> [GetWallTime t2, Awake ''update'']))"

text \<open>
  The discipline that the calls of \<open>compute\<close> follow: a \<open>logger::write\<close> comes directly
  after the \<open>setString\<close> of the percentage and \<open>lock\<close>, and directly before \<open>unlock\<close>; every
  \<open>setString\<close> is made while the lock is not held; in the end the lock is released.
\<close>

definition lock_discipline :: "string \<Rightarrow> event list \<Rightarrow> bool" where
  "lock_discipline arg tr \<longleftrightarrow>
     (\<forall>pre m post. tr = pre @ LoggerWrite m # post \<longrightarrow>
        lock_depth pre = 1 \<and>
        (\<exists>pre' p post'. pre = pre' @ [SetString arg [to_string p @ ''%''], Lock] \<and>
           post = Unlock # post' \<and> m = arg @ '' progress '' @ to_string p @ ''%'')) \<and>
     (\<forall>pre a vs post. tr = pre @ SetString a vs # post \<longrightarrow> lock_depth pre = 0) \<and>
     lock_depth tr = 0"

text \<open>
  A list of progress reports agrees with the clock \<open>w\<close> from the state \<open>(last_refresh,
  calls)\<close> to a final such state: the readings are the next readings of the clock and a
  refresh is requested exactly when the first reading exceeds \<open>last_refresh\<close> by more
  than \<open>0.1\<close>.
\<close>

fun clocked ::
  "(nat \<Rightarrow> double) \<Rightarrow> double \<times> nat \<Rightarrow> (int \<times> double \<times> double option) list \<Rightarrow>
   double \<times> nat \<Rightarrow> bool"
where
  "clocked w (l, c) [] fin = (fin = (l, c))"
| "clocked w (l, c) ((p, t1, None) # bs) fin =
     (t1 = w c \<and> \<not> (t1 - l > 1 / 10) \<and> clocked w (l, Suc c) bs fin)"
| "clocked w (l, c) ((p, t1, Some t2) # bs) fin =
     (t1 = w c \<and> t1 - l > 1 / 10 \<and> t2 = w (Suc c) \<and> clocked w (t2, Suc (Suc c)) bs fin)"

text \<open>
  A monitor for the refresh requests of the loop, started with the value of
  \<open>last_refresh\<close>: every \<open>awake\<close> directly follows two clock readings, the first of which
  exceeds by more than \<open>0.1\<close> the second reading of the previous request (or the start
  value).
\<close>

fun throttled :: "double \<Rightarrow> event list \<Rightarrow> bool" where
  "throttled lr [] = True"
| "throttled lr (e # r) =
     (case e of
        Awake u \<Rightarrow> False
      | GetWallTime t1 \<Rightarrow>
          (case r of
             GetWallTime t2 # Awake u # r' \<Rightarrow> t1 - lr > 1 / 10 \<and> throttled t2 r'
           | _ \<Rightarrow> throttled lr r)
      | _ \<Rightarrow> throttled lr r)"

text \<open>The times recorded in \<open>last_refresh\<close> by the refresh requests of a list of calls.\<close>

fun refresh_times :: "event list \<Rightarrow> double list" where
  "refresh_times [] = []"
| "refresh_times (e # r) =
     (case e of
        GetWallTime t1 \<Rightarrow>
          (case r of
             GetWallTime t2 # Awake u # r' \<Rightarrow> t2 # refresh_times r'
           | _ \<Rightarrow> refresh_times r)
      | _ \<Rightarrow> refresh_times r)"

text \<open>Successive times, from a start value, more than \<open>0.1\<close> apart.\<close>

fun gap_from :: "double \<Rightarrow> double list \<Rightarrow> bool" where
  "gap_from l [] = True"
| "gap_from l (t # ts) = (t - l > 1 / 10 \<and> gap_from t ts)"

text \<open>The times that a list of progress reports records in \<open>last_refresh\<close>.\<close>

fun stamps :: "(int \<times> double \<times> double option) list \<Rightarrow> double list" where
  "stamps [] = []"
| "stamps ((p, t1, None) # bs) = stamps bs"
| "stamps ((p, t1, Some t2) # bs) = t2 # stamps bs"

section \<open>Sample runs of compute\<close>

text \<open>
  A run with 100 iterations and progress shown, stopped by the flag at iteration 1, and
  the calls it makes as thread 1.
\<close>

definition one_step_env :: compute_env where
  "one_step_env =
     \<lparr>iterations = [100], progress = [1], stop_computation = (\<lambda>j. 1 \<le> j),
      wall_time = (\<lambda>i. 0)\<rparr>"

definition one_step_trace :: "event list" where
  "one_step_trace =
     [GetNumber ''My App/Iterations'', GetNumber ''My App/Show progress?'',
      SetString ''My App/Thread 1'' [''1%''],
      Lock, LoggerWrite ''My App/Thread 1 progress 1%'', Unlock,
      GetWallTime 0,
      SetNumber ''My App/Thread 1 result'' [1],
      SetString ''ONELAB/Action'' [''done computing''],
      Awake ''update'']"

text \<open>
  A run stopped at iteration 4, with a clock that advances by \<open>0.05\<close> at every reading,
  and the calls of its loop.
\<close>

definition four_step_env :: compute_env where
  "four_step_env =
     \<lparr>iterations = [100], progress = [1], stop_computation = (\<lambda>j. 4 \<le> j),
      wall_time = (\<lambda>i. 1 + real i / 20)\<rparr>"

definition four_step_loop_trace :: "event list" where
  "four_step_loop_trace =
     [GetNumber ''My App/Iterations'', GetNumber ''My App/Show progress?'',
      SetString ''T'' [''1%''], Lock, LoggerWrite ''T progress 1%'', Unlock,
      GetWallTime 1, GetWallTime (21 / 20), Awake ''update'',
      SetString ''T'' [''2%''], Lock, LoggerWrite ''T progress 2%'', Unlock,
      GetWallTime (11 / 10),
      SetString ''T'' [''3%''], Lock, LoggerWrite ''T progress 3%'', Unlock,
      GetWallTime (23 / 20),
      SetString ''T'' [''4%''], Lock, LoggerWrite ''T progress 4%'', Unlock,
      GetWallTime (6 / 5), GetWallTime (5 / 4), Awake ''update'']"

section \<open>Specification-side notions for the example programs\<close>

text \<open>The run in which the call number \<open>k\<close> fails with code 1 and every other call succeeds.\<close>

definition fails_at :: "nat \<Rightarrow> nat \<Rightarrow> int" where
  "fails_at k i = (if i = k then 1 else 0)"

text \<open>
  The C++ examples with a \<open>try\<close> block, each with the range of the call numbers of the
  calls inside its \<open>try\<close> block (from the first, up to and excluding the second).
\<close>

definition try_catch_examples :: "((stmt list \<Rightarrow> stmt list) \<times> nat \<times> nat) list" where
  "try_catch_examples =
     [(t7_cpp_main, 1, 2), (t8_cpp_main, 13, 16), (t9_cpp_main, 2, 3),
      (t16_cpp_main, 3, 5), (t17_cpp_main, 4, 5), (t20_cpp_main, 2, 3)]"

text \<open>
  A run ends early after a failure of call number \<open>k\<close> with code \<open>c\<close>: after the failed
  call the run only writes a message with \<open>gmsh::logger::write\<close>, possibly calls
  \<open>gmsh::finalize\<close>, and returns 0 from \<open>main\<close>.
\<close>

definition early_exit :: "nat \<Rightarrow> int \<Rightarrow> obs list \<Rightarrow> bool" where
  "early_exit k c tr \<longleftrightarrow>
     (\<exists>pre f args msg fin.
        tr = pre @ [Api f args (Some c), Api ''gmsh::logger::write'' msg (Some 0)] @ fin @
             [Returned 0] \<and>
        length pre = k \<and> (fin = [] \<or> fin = [Api ''gmsh::finalize'' [] (Some 0)]))"

text \<open>The calls of \<open>t8.cpp\<close> before its \<open>try\<close> block, when they succeed.\<close>

definition t8_cpp_geometry :: "obs list" where
  "t8_cpp_geometry =
     [Api ''gmsh::initialize'' [] (Some 0),
      Api ''gmsh::model::add'' ''t8'' (Some 0),
      Api ''gmsh::model::geo::addPoint'' ''0, 0, 0, lc, 1'' (Some 0),
      Api ''gmsh::model::geo::addPoint'' ''.1, 0, 0, lc, 2'' (Some 0),
      Api ''gmsh::model::geo::addPoint'' ''.1, .3, 0, lc, 3'' (Some 0),
      Api ''gmsh::model::geo::addPoint'' ''0, .3, 0, lc, 4'' (Some 0),
      Api ''gmsh::model::geo::addLine'' ''1, 2, 1'' (Some 0),
      Api ''gmsh::model::geo::addLine'' ''3, 2, 2'' (Some 0),
      Api ''gmsh::model::geo::addLine'' ''3, 4, 3'' (Some 0),
      Api ''gmsh::model::geo::addLine'' ''4, 1, 4'' (Some 0),
      Api ''gmsh::model::geo::addCurveLoop'' ''{4, 1, -2, 3}, 1'' (Some 0),
      Api ''gmsh::model::geo::addPlaneSurface'' ''{1}, 1'' (Some 0),
      Api ''gmsh::model::geo::synchronize'' [] (Some 0)]"

text \<open>
  A check of what a run did: directly after every call that gave a non-zero code, the
  run prints the message of \<open>chk\<close> with some line, some function name and that code to
  \<open>stderr\<close>, calls \<open>gmshFinalize(NULL)\<close> and exits, which ends it.
\<close>

fun chk_enforced :: "expr \<Rightarrow> obs list \<Rightarrow> bool" where
  "chk_enforced st [] = True"
| "chk_enforced st (Api f a (Some c) # r) =
     (if c = 0 then chk_enforced st r
      else (\<exists>line func.
              r = [Stderr chk_format [to_string line, func, to_string c],
                   Api ''gmshFinalize'' ''NULL'' None,
                   ExitedWith (exit_status c st)]))"
| "chk_enforced st (e # r) = chk_enforced st r"

text \<open>
  A check of a program text: every call that passes \<open>&ierr\<close> is directly followed by
  \<open>chk(ierr)\<close>, and the program contains no other test of \<open>ierr\<close>.
\<close>

fun chk_after_every_call :: "expr \<Rightarrow> stmt list \<Rightarrow> bool" where
  "chk_after_every_call st [] = True"
| "chk_after_every_call st (CCall f a # x # r) =
     ((\<exists>line func. x = chk st line func) \<and> chk_after_every_call st r)"
| "chk_after_every_call st [CCall f a] = False"
| "chk_after_every_call st (Printf fmt args # r) = chk_after_every_call st r"
| "chk_after_every_call st (CCallNoErr f a # r) = chk_after_every_call st r"
| "chk_after_every_call st (Return n # r) = chk_after_every_call st r"
| "chk_after_every_call st (Undefined w # r) = chk_after_every_call st r"
| "chk_after_every_call st (x # r) = False"

text \<open>Every call of a list of observations that reported a code reported 0.\<close>

definition all_ok :: "obs list \<Rightarrow> bool" where
  "all_ok tr \<longleftrightarrow> (\<forall>f a c. Api f a (Some c) \<in> set tr \<longrightarrow> c = 0)"

section \<open>Properties of getKeysValues\<close>

lemma getKeysValues_loop_eq:
  "getKeysValues_loop xs (ks, vs) = (ks @ map fst xs, vs @ map (\<lambda>p. [snd p]) xs)"
  by (induction xs arbitrary: ks vs) auto

lemma entries_snd_lookup:
  "map (\<lambda>p. [snd p]) (RBT.entries f) = map (\<lambda>k. [the (RBT.lookup f k)]) (map fst (RBT.entries f))"
proof -
  have "\<And>p. p \<in> set (RBT.entries f) \<Longrightarrow> snd p = the (RBT.lookup f (fst p))"
  proof -
    fix p assume "p \<in> set (RBT.entries f)"
    then have "(fst p, snd p) \<in> set (RBT.entries f)" by simp
    then have "RBT.lookup f (fst p) = Some (snd p)" by (simp only: RBT.lookup_in_tree)
    then show "snd p = the (RBT.lookup f (fst p))" by simp
  qed
  then show ?thesis by (simp add: comp_def)
qed

lemma strict_sorted_keys: "sorted_wrt (<) (RBT.keys (f :: (size_t, 'v) rbt))"
proof -
  have "sorted (RBT.keys f)" and "distinct (RBT.keys f)" by simp_all
  then show ?thesis by (simp add: strict_sorted_iff)
qed

text \<open>
  Claim C10. Whatever the two output vectors held before the call, after
  \<open>getKeysValues(f, keys, values)\<close> the vector \<open>keys\<close> is the list of the keys of \<open>f\<close>: it is
  strictly increasing, it has one entry for each element of the map (its length is the
  number of entries and its set is the domain), and \<open>values\<close> has the same length, its
  \<open>i\<close>-th entry being the one-element vector that holds \<open>f (keys[i])\<close>.
\<close>

theorem getKeysValues_sorted_keys_singleton_values:
  "getKeysValues f keys0 vals0 =
     (RBT.keys f, map (\<lambda>k. [the (RBT.lookup f k)]) (RBT.keys f))
   \<and> sorted_wrt (<) (fst (getKeysValues f keys0 vals0))
   \<and> distinct (fst (getKeysValues f keys0 vals0))
   \<and> set (fst (getKeysValues f keys0 vals0)) = dom (RBT.lookup f)
   \<and> length (fst (getKeysValues f keys0 vals0)) = length (RBT.entries f)
   \<and> length (snd (getKeysValues f keys0 vals0)) = length (fst (getKeysValues f keys0 vals0))"
proof -
  have eq: "getKeysValues f keys0 vals0 =
      (RBT.keys f, map (\<lambda>k. [the (RBT.lookup f k)]) (RBT.keys f))"
    unfolding getKeysValues_def Let_def getKeysValues_loop_eq
    by (simp add: entries_snd_lookup RBT.keys_def_alt)
  have len: "length (RBT.keys f) = length (RBT.entries f)"
    by (simp add: RBT.keys_def_alt)
  show ?thesis
    unfolding eq by (simp add: strict_sorted_keys RBT.lookup_keys len)
qed

section \<open>Properties of computeInterpolationError\<close>












lemma three_nodes:
  "length ns = 3 \<Longrightarrow> list_all (\<lambda>n. n \<noteq> None) ns \<Longrightarrow>
   \<exists>n0 n1 n2. ns = [Some n0, Some n1, Some n2]"
  by (auto simp: length_Suc_conv numeral_3_eq_3)




text \<open>
  The \<open>int\<close> tag of a vertex is the key of its node only for a node tag below \<open>2^31\<close>
  (or in the top \<open>2^31\<close> values): the tag \<open>2^31\<close> comes back as another key, which the
  look-up \<open>f_nod[t]\<close> then inserts.
\<close>

lemma int_tag_round_trip:
  "(scast (ucast (5 :: size_t) :: c_int) :: size_t) = 5"
  "(scast (ucast (2147483648 :: size_t) :: c_int) :: size_t) = 18446744071562067968"
  by simp_all





section \<open>Properties of maxEdge and computeSizeField\<close>

lemma maxEdge_three:
  "e_nodes e = [Some n0, Some n1, Some n2] \<Longrightarrow>
   maxEdge e = Inr (Max {distance n0 n1, distance n0 n2, distance n1 n2})"
  by (simp add: maxEdge_def Let_def max.commute max.left_commute)

lemma maxEdge_other:
  "length (e_nodes e) \<noteq> 3 \<Longrightarrow> maxEdge e = Inl (Exited maxEdge_msg 1)"
  by (simp add: maxEdge_def)

lemma maxEdge_Inr_iff:
  "(\<exists>h. maxEdge e = Inr h) \<longleftrightarrow> length (e_nodes e) = 3 \<and> list_all (\<lambda>n. n \<noteq> None) (e_nodes e)"
proof (cases "length (e_nodes e) = 3")
  case False
  then show ?thesis by (simp add: maxEdge_def)
next
  case True
  then obtain p0 p1 p2 where ns: "e_nodes e = [p0, p1, p2]"
    by (auto simp: length_Suc_conv numeral_3_eq_3)
  show ?thesis
    by (cases p0; cases p1; cases p2) (simp_all add: maxEdge_def ns Let_def)
qed

lemma size_loop_Inr_iff:
  "(\<exists>sf'. size_loop mesh a d N fct xs sf = Inr sf') \<longleftrightarrow> list_all (\<lambda>(k, e). triangle_at mesh k) xs"
proof (induction xs arbitrary: sf)
  case Nil
  then show ?case by simp
next
  case (Cons x xs)
  obtain k e where x: "x = (k, e)" by (cases x)
  show ?case
  proof (cases "triangle_at mesh k")
    case True
    then obtain el where el: "RBT.lookup (m_elements mesh) k = Some (Some el)"
      and t: "length (e_nodes el) = 3 \<and> list_all (\<lambda>n. n \<noteq> None) (e_nodes el)"
      by (auto simp: triangle_at_def split: option.splits)
    from t obtain h where h: "maxEdge el = Inr h" using maxEdge_Inr_iff[of el] by blast
    show ?thesis using True Cons.IH by (simp add: x el h Let_def)
  next
    case False
    have "\<not> (\<exists>sf'. size_loop mesh a d N fct (x # xs) sf = Inr sf')"
    proof (cases "RBT.lookup (m_elements mesh) k")
      case None
      then show ?thesis by (simp add: x Let_def)
    next
      case (Some p)
      show ?thesis
      proof (cases p)
        case None
        with Some show ?thesis by (simp add: x Let_def)
      next
        case (Some el)
        with \<open>RBT.lookup (m_elements mesh) k = Some p\<close> False
        have "\<not> (length (e_nodes el) = 3 \<and> list_all (\<lambda>n. n \<noteq> None) (e_nodes el))"
          by (simp add: triangle_at_def)
        then have "\<not> (\<exists>h. maxEdge el = Inr h)" using maxEdge_Inr_iff[of el] by blast
        then obtain err where "maxEdge el = Inl err" by (cases "maxEdge el") auto
        with Some \<open>RBT.lookup (m_elements mesh) k = Some p\<close> show ?thesis
          by (simp add: x Let_def)
      qed
    qed
    with False show ?thesis by (simp add: x)
  qed
qed

lemma triangle_at_iff:
  "triangle_at mesh k \<longleftrightarrow>
     (\<exists>e n0 n1 n2. RBT.lookup (m_elements mesh) k = Some (Some e) \<and>
        e_nodes e = [Some n0, Some n1, Some n2])"
proof
  assume "triangle_at mesh k"
  then obtain e where e: "RBT.lookup (m_elements mesh) k = Some (Some e)"
    and t: "length (e_nodes e) = 3" "list_all (\<lambda>n. n \<noteq> None) (e_nodes e)"
    by (auto simp: triangle_at_def split: option.splits)
  from three_nodes[OF t] e
  show "\<exists>e n0 n1 n2. RBT.lookup (m_elements mesh) k = Some (Some e) \<and>
        e_nodes e = [Some n0, Some n1, Some n2]" by blast
next
  assume "\<exists>e n0 n1 n2. RBT.lookup (m_elements mesh) k = Some (Some e) \<and>
        e_nodes e = [Some n0, Some n1, Some n2]"
  then show "triangle_at mesh k" by (auto simp: triangle_at_def)
qed

lemma list_all_entries_keys:
  "list_all (\<lambda>(k, e). P k) (RBT.entries t) \<longleftrightarrow> (\<forall>k \<in> dom (RBT.lookup t). P k)"
proof -
  have "(\<forall>x \<in> set (RBT.entries t). case x of (k, e) \<Rightarrow> P k) \<longleftrightarrow> (\<forall>k \<in> set (RBT.keys t). P k)"
    by (auto simp: RBT.keys_entries)
  then show ?thesis by (simp add: list_all_iff RBT.lookup_keys)
qed

lemma computeSizeField_Inr_iff:
  "(\<exists>sf'. computeSizeField mesh err_ele N sf_ele = Inr sf') \<longleftrightarrow>
   (\<forall>k \<in> dom (RBT.lookup err_ele). triangle_at mesh k)"
  unfolding computeSizeField_def Let_def size_loop_Inr_iff list_all_entries_keys ..

text \<open>
  Claim C9. \<open>myElement::maxEdge\<close> returns the largest of the three pairwise distances of
  the nodes of an element with exactly three nodes; with any other number of nodes it
  prints \<open>maxEdge only implemented for 3-node triangles\<close> and exits the process with
  status 1. Hence \<open>computeSizeField\<close> runs to completion exactly when every key of
  \<open>err_ele\<close> is the key of an element of the mesh with three nodes.
\<close>

theorem maxEdge_exit_and_computeSizeField_completion:
  "(\<forall>n0 n1 n2. e_nodes e = [Some n0, Some n1, Some n2] \<longrightarrow>
      maxEdge e = Inr (Max {distance n0 n1, distance n0 n2, distance n1 n2})) \<and>
   (length (e_nodes e) \<noteq> 3 \<longrightarrow>
      maxEdge e = Inl (Exited ''maxEdge only implemented for 3-node triangles'' 1)) \<and>
   ((\<exists>sf'. computeSizeField mesh err_ele N sf_ele = Inr sf') \<longleftrightarrow>
    (\<forall>k \<in> dom (RBT.lookup err_ele).
       \<exists>e' n0 n1 n2. RBT.lookup (m_elements mesh) k = Some (Some e') \<and>
          e_nodes e' = [Some n0, Some n1, Some n2]))"
proof -
  have a: "\<forall>n0 n1 n2. e_nodes e = [Some n0, Some n1, Some n2] \<longrightarrow>
      maxEdge e = Inr (Max {distance n0 n1, distance n0 n2, distance n1 n2})"
    using maxEdge_three by blast
  have b: "length (e_nodes e) \<noteq> 3 \<longrightarrow>
      maxEdge e = Inl (Exited ''maxEdge only implemented for 3-node triangles'' 1)"
    using maxEdge_other[of e] by (simp add: maxEdge_msg_def)
  have c: "(\<exists>sf'. computeSizeField mesh err_ele N sf_ele = Inr sf') \<longleftrightarrow>
    (\<forall>k \<in> dom (RBT.lookup err_ele).
       \<exists>e' n0 n1 n2. RBT.lookup (m_elements mesh) k = Some (Some e') \<and>
          e_nodes e' = [Some n0, Some n1, Some n2])"
    unfolding computeSizeField_Inr_iff triangle_at_iff ..
  from a b c show ?thesis by blast
qed

text \<open>
  The theorem at the sample mesh: the triangle has a longest edge, the two-node element
  exits, and the size field is computed for an error map on the triangle but not for one
  on the two-node element.
\<close>

theorem maxEdge_exit_and_computeSizeField_completion_witness:
  "maxEdge sample_triangle =
     Inr (Max {distance (new_myVertex 1 0 0 0) (new_myVertex 2 1 0 0),
               distance (new_myVertex 1 0 0 0) (new_myVertex 3 0 1 0),
               distance (new_myVertex 2 1 0 0) (new_myVertex 3 0 1 0)}) \<and>
   maxEdge sample_line = Inl (Exited ''maxEdge only implemented for 3-node triangles'' 1) \<and>
   (\<exists>sf'. computeSizeField sample_mesh (RBT.insert 10 (1/9) RBT.empty) 10000 RBT.empty = Inr sf') \<and>
   \<not> (\<exists>sf'. computeSizeField sample_mesh (RBT.insert 11 (1/9) RBT.empty) 10000 RBT.empty = Inr sf')"
proof -
  note thm1 = maxEdge_exit_and_computeSizeField_completion[of sample_triangle sample_mesh
      "RBT.insert 10 (1/9) RBT.empty" 10000 RBT.empty]
  note thm2 = maxEdge_exit_and_computeSizeField_completion[of sample_line sample_mesh
      "RBT.insert 11 (1/9) RBT.empty" 10000 RBT.empty]
  have a: "maxEdge sample_triangle =
     Inr (Max {distance (new_myVertex 1 0 0 0) (new_myVertex 2 1 0 0),
               distance (new_myVertex 1 0 0 0) (new_myVertex 3 0 1 0),
               distance (new_myVertex 2 1 0 0) (new_myVertex 3 0 1 0)})"
    using thm1 by (simp add: sample_triangle_def)
  have b: "maxEdge sample_line = Inl (Exited ''maxEdge only implemented for 3-node triangles'' 1)"
    using thm2 by (simp add: sample_line_def)
  have c: "\<exists>sf'. computeSizeField sample_mesh (RBT.insert 10 (1/9) RBT.empty) 10000 RBT.empty = Inr sf'"
    using thm1 by (simp add: sample_mesh_def sample_triangle_def)
  have d: "\<not> (\<exists>sf'. computeSizeField sample_mesh (RBT.insert 11 (1/9) RBT.empty) 10000 RBT.empty = Inr sf')"
    using thm2 by (simp add: sample_mesh_def sample_line_def)
  from a b c d show ?thesis by blast
qed

section \<open>Objects are read-only after construction\<close>

text \<open>
  Claim C7. Every public operation of \<open>myVertex\<close>, \<open>myElement\<close> and \<open>myMesh\<close> leaves the
  object it is called on as it was after construction: the accessors return the stored
  tag, coordinates, node list, quadrature arrays and maps and change no field. The only
  call that may not return is \<open>maxEdge\<close>, which exits the process.
\<close>

theorem public_operations_leave_objects_unchanged:
  "snd (myVertex_call v vop) = v \<and>
   ((\<exists>r. myElement_call e eop = Inr (r, e)) \<or>
    (eop = E_maxEdge \<and> (\<exists>x. myElement_call e eop = Inl x))) \<and>
   snd (myMesh_call m mop) = m"
proof -
  have a: "snd (myVertex_call v vop) = v" by (cases vop) simp_all
  have b: "(\<exists>r. myElement_call e eop = Inr (r, e)) \<or>
    (eop = E_maxEdge \<and> (\<exists>x. myElement_call e eop = Inl x))"
    by (cases eop) (simp_all split: sum.splits)
  have c: "snd (myMesh_call m mop) = m" by (cases mop) simp_all
  from a b c show ?thesis by blast
qed

section \<open>The calls of compute\<close>

lemma lock_depth_simps:
  "lock_depth [] = 0"
  "lock_depth (Lock # r) = lock_depth r + 1"
  "lock_depth (Unlock # r) = lock_depth r - 1"
  "e \<noteq> Lock \<Longrightarrow> e \<noteq> Unlock \<Longrightarrow> lock_depth (e # r) = lock_depth r"
  by (simp_all add: lock_depth_def)

lemma lock_depth_append: "lock_depth (a @ b) = lock_depth a + lock_depth b"
  by (simp add: lock_depth_def)

lemma lock_discipline_Nil: "lock_discipline arg []"
  by (simp add: lock_discipline_def lock_depth_simps)

lemma lock_discipline_Cons:
  assumes "lock_discipline arg r" "e \<noteq> Lock" "e \<noteq> Unlock" "\<And>m. e \<noteq> LoggerWrite m"
  shows "lock_discipline arg (e # r)"
proof -
  have d: "lock_depth (e # x) = lock_depth x" for x
    using assms(2,3) by (simp add: lock_depth_simps)
  have a: "lock_depth pre = 1 \<and>
        (\<exists>pre' p post'. pre = pre' @ [SetString arg [to_string p @ ''%''], Lock] \<and>
           post = Unlock # post' \<and> m = arg @ '' progress '' @ to_string p @ ''%'')"
    if "e # r = pre @ LoggerWrite m # post" for pre m post
  proof (cases pre)
    case Nil
    with that assms(4) show ?thesis by simp
  next
    case (Cons x pre0)
    with that have x: "x = e" and r: "r = pre0 @ LoggerWrite m # post" by simp_all
    from assms(1) r obtain pre' p post' where
      f1: "lock_depth pre0 = 1" and f2: "pre0 = pre' @ [SetString arg [to_string p @ ''%''], Lock]"
      and f3: "post = Unlock # post'" and f4: "m = arg @ '' progress '' @ to_string p @ ''%''"
      unfolding lock_discipline_def by blast
    have g1: "lock_depth pre = 1" unfolding Cons x d by (rule f1)
    have g2: "pre = (e # pre') @ [SetString arg [to_string p @ ''%''], Lock]"
      unfolding Cons x f2 by simp
    from g1 g2 f3 f4 show ?thesis by blast
  qed
  have b: "lock_depth pre = 0" if "e # r = pre @ SetString a vs # post" for pre a vs post
  proof (cases pre)
    case Nil
    then show ?thesis by (simp add: lock_depth_simps)
  next
    case (Cons x pre0)
    with that have x: "x = e" and r: "r = pre0 @ SetString a vs # post" by simp_all
    from assms(1) r have "lock_depth pre0 = 0" unfolding lock_discipline_def by blast
    then show ?thesis unfolding Cons x d .
  qed
  have c: "lock_depth (e # r) = 0"
  proof -
    from assms(1) have "lock_depth r = 0" unfolding lock_discipline_def by blast
    then show ?thesis unfolding d .
  qed
  from a b c show ?thesis unfolding lock_discipline_def by blast
qed

lemma lock_discipline_locked_write:
  assumes "lock_discipline arg r"
  shows "lock_discipline arg
     (SetString arg [to_string p @ ''%''] # Lock #
      LoggerWrite (arg @ '' progress '' @ to_string p @ ''%'') # Unlock # r)"
    (is "lock_discipline arg (?S # Lock # ?W # Unlock # r)")
proof -
  have d: "lock_depth (?S # Lock # ?W # Unlock # x) = lock_depth x" for x
    by (simp add: lock_depth_simps)
  have a: "lock_depth pre = 1 \<and>
        (\<exists>pre' p post'. pre = pre' @ [SetString arg [to_string p @ ''%''], Lock] \<and>
           post = Unlock # post' \<and> m = arg @ '' progress '' @ to_string p @ ''%'')"
    if eq: "?S # Lock # ?W # Unlock # r = pre @ LoggerWrite m # post" for pre m post
  proof -
    from eq consider
      (here) "pre = [?S, Lock]" "m = arg @ '' progress '' @ to_string p @ ''%''" "post = Unlock # r"
      | (later) pre0 where "pre = ?S # Lock # ?W # Unlock # pre0" "r = pre0 @ LoggerWrite m # post"
      by (auto simp: Cons_eq_append_conv)
    then show ?thesis
    proof cases
      case here
      have "pre = [] @ [SetString arg [to_string p @ ''%''], Lock]" using here by simp
      with here show ?thesis by (auto simp: lock_depth_simps)
    next
      case later
      from assms later(2) obtain pre' q post' where
        f1: "lock_depth pre0 = 1" and f2: "pre0 = pre' @ [SetString arg [to_string q @ ''%''], Lock]"
        and f3: "post = Unlock # post'" and f4: "m = arg @ '' progress '' @ to_string q @ ''%''"
        unfolding lock_discipline_def by blast
      have g1: "lock_depth pre = 1" unfolding later(1) d by (rule f1)
      have g2: "pre = (?S # Lock # ?W # Unlock # pre') @ [SetString arg [to_string q @ ''%''], Lock]"
        unfolding later(1) f2 by simp
      from g1 g2 f3 f4 show ?thesis by blast
    qed
  qed
  have b: "lock_depth pre = 0"
    if eq: "?S # Lock # ?W # Unlock # r = pre @ SetString a vs # post" for pre a vs post
  proof -
    from eq consider
      (here) "pre = []"
      | (later) pre0 where "pre = ?S # Lock # ?W # Unlock # pre0" "r = pre0 @ SetString a vs # post"
      by (auto simp: Cons_eq_append_conv)
    then show ?thesis
    proof cases
      case here
      then show ?thesis by (simp add: lock_depth_simps)
    next
      case later
      from assms later(2) have "lock_depth pre0 = 0" unfolding lock_discipline_def by blast
      then show ?thesis unfolding later(1) d .
    qed
  qed
  have c: "lock_depth (?S # Lock # ?W # Unlock # r) = 0"
  proof -
    from assms have "lock_depth r = 0" unfolding lock_discipline_def by blast
    then show ?thesis unfolding d .
  qed
  from a b c show ?thesis unfolding lock_discipline_def by blast
qed

lemma lock_discipline_block:
  assumes "lock_discipline arg r"
  shows "lock_discipline arg (progress_block arg b @ r)"
proof -
  obtain p t1 rr where b: "b = (p, t1, rr)" by (cases b)
  have tail: "lock_discipline arg (GetWallTime t1 #
      (case rr of None \<Rightarrow> [] | Some t2 \<Rightarrow> [GetWallTime t2, Awake ''update'']) @ r)"
    using assms by (cases rr) (auto intro!: lock_discipline_Cons)
  from lock_discipline_locked_write[OF tail, of p]
  show ?thesis by (simp add: progress_block_def b)
qed

lemma lock_discipline_blocks:
  "lock_discipline arg r \<Longrightarrow> lock_discipline arg (concat (map (progress_block arg) bs) @ r)"
  by (induction bs) (simp_all add: lock_discipline_block)

lemma report_progress_block:
  "\<exists>b. ls_trace (report_progress env arg s) = ls_trace s @ progress_block arg b \<and>
       clocked (wall_time env) (ls_last_refresh s, ls_calls s) [b]
         (ls_last_refresh (report_progress env arg s), ls_calls (report_progress env arg s))"
proof (cases "wall_time env (ls_calls s) - ls_last_refresh s > 1 / 10")
  case True
  let ?b = "(ls_p s + 1, wall_time env (ls_calls s), Some (wall_time env (ls_calls s + 1)))"
  have "ls_trace (report_progress env arg s) = ls_trace s @ progress_block arg ?b"
    using True by (simp add: report_progress_def progress_block_def Let_def)
  moreover have "clocked (wall_time env) (ls_last_refresh s, ls_calls s) [?b]
         (ls_last_refresh (report_progress env arg s), ls_calls (report_progress env arg s))"
    using True by (simp add: report_progress_def Let_def)
  ultimately show ?thesis by blast
next
  case False
  let ?b = "(ls_p s + 1, wall_time env (ls_calls s), None :: double option)"
  have "ls_trace (report_progress env arg s) = ls_trace s @ progress_block arg ?b"
    using False by (simp add: report_progress_def progress_block_def Let_def)
  moreover have "clocked (wall_time env) (ls_last_refresh s, ls_calls s) [?b]
         (ls_last_refresh (report_progress env arg s), ls_calls (report_progress env arg s))"
    using False by (simp add: report_progress_def Let_def)
  ultimately show ?thesis by blast
qed

lemma clocked_Cons:
  "clocked w lc [b] mid \<Longrightarrow> clocked w mid bs fin \<Longrightarrow> clocked w lc (b # bs) fin"
  by (cases "(w, lc, [b], mid)" rule: clocked.cases) auto

lemma compute_loop_blocks:
  "compute_loop env arg n showp js s = Inr s' \<Longrightarrow>
   \<exists>bs. ls_trace s' = ls_trace s @ concat (map (progress_block arg) bs) \<and>
        clocked (wall_time env) (ls_last_refresh s, ls_calls s) bs (ls_last_refresh s', ls_calls s')"
proof (induction js arbitrary: s)
  case Nil
  then have "s' = s" by simp
  then have "ls_trace s' = ls_trace s @ concat (map (progress_block arg) []) \<and>
        clocked (wall_time env) (ls_last_refresh s, ls_calls s) [] (ls_last_refresh s', ls_calls s')"
    by simp
  then show ?case by blast
next
  case (Cons j js)
  let ?s1 = "s\<lparr>ls_k := sin (ls_k s) + cos (real j / 45)\<rparr>"
  have keep: "ls_trace ?s1 = ls_trace s" "ls_last_refresh ?s1 = ls_last_refresh s"
    "ls_calls ?s1 = ls_calls s" by simp_all
  show ?case
  proof (cases "stop_computation env j")
    case True
    with Cons.prems have "s' = s" by simp
    then have "ls_trace s' = ls_trace s @ concat (map (progress_block arg) []) \<and>
        clocked (wall_time env) (ls_last_refresh s, ls_calls s) [] (ls_last_refresh s', ls_calls s')"
      by simp
    then show ?thesis by blast
  next
    case False
    show ?thesis
    proof (cases "showp \<and> n > 1 \<and> n div 100 \<noteq> 0 \<and> int j mod (n div 100) = 0")
      case True
      with False Cons.prems
      have run: "compute_loop env arg n showp js (report_progress env arg ?s1) = Inr s'"
        by (simp add: Let_def)
      from Cons.IH[OF run] obtain bs where
        t: "ls_trace s' = ls_trace (report_progress env arg ?s1) @ concat (map (progress_block arg) bs)"
        and c: "clocked (wall_time env)
           (ls_last_refresh (report_progress env arg ?s1), ls_calls (report_progress env arg ?s1)) bs
           (ls_last_refresh s', ls_calls s')"
        by blast
      from report_progress_block[of env arg ?s1] obtain b where
        tb: "ls_trace (report_progress env arg ?s1) = ls_trace ?s1 @ progress_block arg b"
        and cb: "clocked (wall_time env) (ls_last_refresh ?s1, ls_calls ?s1) [b]
           (ls_last_refresh (report_progress env arg ?s1), ls_calls (report_progress env arg ?s1))"
        by blast
      have "ls_trace s' = ls_trace s @ concat (map (progress_block arg) (b # bs))"
        unfolding t tb keep by simp
      moreover have "clocked (wall_time env) (ls_last_refresh s, ls_calls s) (b # bs)
           (ls_last_refresh s', ls_calls s')"
        using clocked_Cons[OF cb c] unfolding keep .
      ultimately show ?thesis by blast
    next
      case nb: False
      have "showp \<and> n > 1 \<longrightarrow> n div 100 \<noteq> 0"
      proof (rule ccontr)
        assume "\<not> (showp \<and> n > 1 \<longrightarrow> n div 100 \<noteq> 0)"
        with False have "compute_loop env arg n showp (j # js) s = Inl DivByZero"
          by (simp add: Let_def)
        with Cons.prems show False by simp
      qed
      with nb False Cons.prems
      have run: "compute_loop env arg n showp js ?s1 = Inr s'"
        by (auto simp: Let_def split: if_splits)
      from Cons.IH[OF run] show ?thesis unfolding keep .
    qed
  qed
qed

lemma compute_trace_structure:
  assumes "compute env arg = Inr tr"
  shows "\<exists>bs k fin.
     tr = [GetNumber ''My App/Iterations'', GetNumber ''My App/Show progress?''] @
          concat (map (progress_block arg) bs) @
          [SetNumber (arg @ '' result'') [k],
           SetString ''ONELAB/Action'' [''done computing''],
           Awake ''update''] \<and>
     clocked (wall_time env) (0, 0) bs fin"
proof -
  from assms obtain s where run: "compute_run env arg = Inr s"
    and tr: "tr = ls_trace s @
               [SetNumber (arg @ '' result'') [ls_k s],
                SetString ''ONELAB/Action'' [''done computing''],
                Awake ''update'']"
    by (auto simp: compute_def split: sum.splits)
  from run obtain n showp where
    loop: "compute_loop env arg n showp [0 ..< nat n] compute_init = Inr s"
    by (auto simp: compute_run_def Let_def split: sum.splits)
  from compute_loop_blocks[OF loop] obtain bs where
    t: "ls_trace s = ls_trace compute_init @ concat (map (progress_block arg) bs)"
    and c: "clocked (wall_time env) (ls_last_refresh compute_init, ls_calls compute_init) bs
              (ls_last_refresh s, ls_calls s)"
    by blast
  have "tr = [GetNumber ''My App/Iterations'', GetNumber ''My App/Show progress?''] @
          concat (map (progress_block arg) bs) @
          [SetNumber (arg @ '' result'') [ls_k s],
           SetString ''ONELAB/Action'' [''done computing''],
           Awake ''update'']"
    unfolding tr t by (simp add: compute_init_def)
  moreover have "clocked (wall_time env) (0, 0) bs (ls_last_refresh s, ls_calls s)"
    using c by (simp add: compute_init_def)
  ultimately show ?thesis by blast
qed

lemma compute_lock_discipline_aux:
  assumes "compute env arg = Inr tr"
  shows "lock_discipline arg tr"
proof -
  from compute_trace_structure[OF assms] obtain bs k where
    tr: "tr = [GetNumber ''My App/Iterations'', GetNumber ''My App/Show progress?''] @
          concat (map (progress_block arg) bs) @
          [SetNumber (arg @ '' result'') [k],
           SetString ''ONELAB/Action'' [''done computing''],
           Awake ''update'']"
    by blast
  have "lock_discipline arg [SetNumber (arg @ '' result'') [k],
           SetString ''ONELAB/Action'' [''done computing''],
           Awake ''update'']"
    by (intro lock_discipline_Cons lock_discipline_Nil) simp_all
  from lock_discipline_blocks[OF this, of bs]
  have "lock_discipline arg (GetNumber ''My App/Iterations'' # GetNumber ''My App/Show progress?'' #
          concat (map (progress_block arg) bs) @
          [SetNumber (arg @ '' result'') [k],
           SetString ''ONELAB/Action'' [''done computing''],
           Awake ''update''])"
    by (intro lock_discipline_Cons) simp_all
  then show ?thesis unfolding tr by simp
qed

lemma upt_100: "[0 ..< 100] = 0 # 1 # [2 ..< 100]"
  by (simp add: upt_conv_Cons del: upt_Suc)

lemma to_string_1: "to_string 1 = ''1''"
  by code_simp

lemma compute_one_step: "compute one_step_env ''My App/Thread 1'' = Inr one_step_trace"
  by (simp add: one_step_env_def one_step_trace_def compute_def compute_run_def
      static_cast_int_def compute_init_def upt_100 report_progress_def Let_def to_string_1
      del: digits_of.simps)

text \<open>
  Claim C4, as stated, fails: in the run stopped at iteration 1 the \<open>setString\<close> call that
  publishes \<open>1%\<close> is the third call, made after the two \<open>getNumber\<close> calls and before
  the first \<open>lock\<close>, so the lock is not held when it is made.
\<close>

theorem progress_setString_outside_lock:
  "compute one_step_env ''My App/Thread 1'' =
     Inr ([GetNumber ''My App/Iterations'', GetNumber ''My App/Show progress?''] @
          SetString ''My App/Thread 1'' [''1%''] #
          [Lock, LoggerWrite ''My App/Thread 1 progress 1%'', Unlock,
           GetWallTime 0,
           SetNumber ''My App/Thread 1 result'' [1],
           SetString ''ONELAB/Action'' [''done computing''],
           Awake ''update'']) \<and>
   \<not> lock_held [GetNumber ''My App/Iterations'', GetNumber ''My App/Show progress?'']"
  using compute_one_step by (simp add: one_step_trace_def lock_held_def lock_depth_def)

text \<open>
  Claim C4, amended. In every run of \<open>compute\<close> that returns, every \<open>gmsh::logger::write\<close> of
  a progress message is made while the lock is held, directly after \<open>gmsh::fltk::lock()\<close>
  and directly before \<open>gmsh::fltk::unlock()\<close>; the \<open>gmsh::onelab::setString\<close> call that
  publishes the percentage is the call directly before that \<open>lock()\<close>, and every
  \<open>setString\<close> call of \<open>compute\<close> is made while the lock is not held.
\<close>

theorem compute_write_locked_setString_unlocked:
  assumes "compute env arg = Inr tr"
  shows "(\<forall>pre m post. tr = pre @ LoggerWrite m # post \<longrightarrow>
            lock_held pre \<and>
            (\<exists>pre' p post'. pre = pre' @ [SetString arg [to_string p @ ''%''], Lock] \<and>
               post = Unlock # post' \<and> m = arg @ '' progress '' @ to_string p @ ''%'')) \<and>
         (\<forall>pre a vs post. tr = pre @ SetString a vs # post \<longrightarrow> \<not> lock_held pre)"
  using compute_lock_discipline_aux[OF assms]
  unfolding lock_discipline_def lock_held_def by simp

text \<open>The amended claim at the run stopped at iteration 1.\<close>

theorem compute_write_locked_setString_unlocked_witness:
  "compute one_step_env ''My App/Thread 1'' = Inr one_step_trace \<and>
   lock_held [GetNumber ''My App/Iterations'', GetNumber ''My App/Show progress?'',
              SetString ''My App/Thread 1'' [''1%''], Lock] \<and>
   \<not> lock_held [GetNumber ''My App/Iterations'', GetNumber ''My App/Show progress?'']"
proof -
  note t = compute_write_locked_setString_unlocked[OF compute_one_step]
  have d1: "one_step_trace =
      [GetNumber ''My App/Iterations'', GetNumber ''My App/Show progress?'',
       SetString ''My App/Thread 1'' [''1%''], Lock] @
      LoggerWrite ''My App/Thread 1 progress 1%'' #
      [Unlock, GetWallTime 0, SetNumber ''My App/Thread 1 result'' [1],
       SetString ''ONELAB/Action'' [''done computing''], Awake ''update'']"
    by (simp add: one_step_trace_def)
  have d2: "one_step_trace =
      [GetNumber ''My App/Iterations'', GetNumber ''My App/Show progress?''] @
      SetString ''My App/Thread 1'' [''1%''] #
      [Lock, LoggerWrite ''My App/Thread 1 progress 1%'', Unlock, GetWallTime 0,
       SetNumber ''My App/Thread 1 result'' [1],
       SetString ''ONELAB/Action'' [''done computing''], Awake ''update'']"
    by (simp add: one_step_trace_def)
  from t d1 have a: "lock_held [GetNumber ''My App/Iterations'', GetNumber ''My App/Show progress?'',
              SetString ''My App/Thread 1'' [''1%''], Lock]" by blast
  from t d2 have b: "\<not> lock_held [GetNumber ''My App/Iterations'', GetNumber ''My App/Show progress?'']"
    by blast
  from compute_one_step a b show ?thesis by blast
qed

section \<open>The refresh requests of compute\<close>

lemma blocks_head:
  "concat (map (progress_block arg) bs) = [] \<or>
   (\<exists>a vs r. concat (map (progress_block arg) bs) = SetString a vs # r)"
  by (cases bs) (auto simp: progress_block_def)

lemma throttled_wall_skip:
  "r = [] \<or> (\<exists>a vs r'. r = SetString a vs # r') \<Longrightarrow>
   throttled l (GetWallTime t # r) = throttled l r"
  by (elim disjE exE) simp_all

lemma refresh_times_wall_skip:
  "r = [] \<or> (\<exists>a vs r'. r = SetString a vs # r') \<Longrightarrow>
   refresh_times (GetWallTime t # r) = refresh_times r"
  by (elim disjE exE) simp_all

lemma throttled_block_None:
  "throttled l (progress_block arg (p, t1, None) @ concat (map (progress_block arg) bs)) =
   throttled l (concat (map (progress_block arg) bs))"
  using throttled_wall_skip[OF blocks_head[of arg bs], of l t1]
  by (simp add: progress_block_def)

lemma throttled_block_Some:
  "throttled l (progress_block arg (p, t1, Some t2) @ r) = (t1 - l > 1 / 10 \<and> throttled t2 r)"
  by (simp add: progress_block_def)

lemma refresh_times_block_None:
  "refresh_times (progress_block arg (p, t1, None) @ concat (map (progress_block arg) bs)) =
   refresh_times (concat (map (progress_block arg) bs))"
  using refresh_times_wall_skip[OF blocks_head[of arg bs], of t1]
  by (simp add: progress_block_def)

lemma refresh_times_block_Some:
  "refresh_times (progress_block arg (p, t1, Some t2) @ r) = t2 # refresh_times r"
  by (simp add: progress_block_def)

lemma throttled_blocks:
  "clocked w (l, c) bs fin \<Longrightarrow> throttled l (concat (map (progress_block arg) bs))"
proof (induction bs arbitrary: l c)
  case Nil
  then show ?case by simp
next
  case (Cons b bs)
  obtain p t1 r where b: "b = (p, t1, r)" by (cases b)
  show ?case
  proof (cases r)
    case None
    with Cons.prems b have "clocked w (l, Suc c) bs fin" by simp
    from Cons.IH[OF this] show ?thesis
      unfolding b None using throttled_block_None[of l arg p t1 bs] by simp
  next
    case (Some t2)
    have "t1 = w c \<and> t1 - l > 1 / 10 \<and> t2 = w (Suc c) \<and> clocked w (t2, Suc (Suc c)) bs fin"
      using Cons.prems unfolding b Some clocked.simps .
    then have c: "clocked w (t2, Suc (Suc c)) bs fin" and g: "t1 - l > 1 / 10"
      by blast+
    from Cons.IH[OF c] g show ?thesis
      unfolding b Some using throttled_block_Some[of l arg p t1 t2 "concat (map (progress_block arg) bs)"]
      by simp
  qed
qed

lemma refresh_times_blocks:
  "refresh_times (concat (map (progress_block arg) bs)) = stamps bs"
proof (induction bs)
  case Nil
  then show ?case by simp
next
  case (Cons b bs)
  obtain p t1 r where b: "b = (p, t1, r)" by (cases b)
  show ?case
  proof (cases r)
    case None
    show ?thesis
      unfolding b None using refresh_times_block_None[of arg p t1 bs] Cons.IH by simp
  next
    case (Some t2)
    show ?thesis
      unfolding b Some
      using refresh_times_block_Some[of arg p t1 t2 "concat (map (progress_block arg) bs)"] Cons.IH
      by simp
  qed
qed

lemma gap_from_stamps:
  assumes mono: "\<And>i j. i \<le> j \<Longrightarrow> w i \<le> w j"
  shows "clocked w (l, c) bs fin \<Longrightarrow> gap_from l (stamps bs)"
proof (induction bs arbitrary: l c)
  case Nil
  then show ?case by simp
next
  case (Cons b bs)
  obtain p t1 r where b: "b = (p, t1, r)" by (cases b)
  show ?case
  proof (cases r)
    case None
    with Cons.prems b have "clocked w (l, Suc c) bs fin" by simp
    from Cons.IH[OF this] show ?thesis unfolding b None by simp
  next
    case (Some t2)
    have "t1 = w c \<and> t1 - l > 1 / 10 \<and> t2 = w (Suc c) \<and> clocked w (t2, Suc (Suc c)) bs fin"
      using Cons.prems unfolding b Some clocked.simps .
    then have c: "clocked w (t2, Suc (Suc c)) bs fin"
      and t: "t1 = w c" "t2 = w (Suc c)" "t1 - l > 1 / 10"
      by blast+
    have "w c \<le> w (Suc c)" by (rule mono) simp
    with t have "t2 - l > 1 / 10" by simp
    with Cons.IH[OF c] show ?thesis unfolding b Some by simp
  qed
qed

lemma gap_from_greater: "gap_from l ts \<Longrightarrow> t \<in> set ts \<Longrightarrow> l < t"
proof (induction ts arbitrary: l)
  case Nil
  then show ?case by simp
next
  case (Cons a ts)
  then have "l < a" "gap_from a ts" by simp_all
  with Cons show ?case by force
qed

lemma gap_from_count_below:
  "gap_from l ts \<Longrightarrow> filter (\<lambda>t. t \<le> B) ts \<noteq> [] \<Longrightarrow>
   real (length (filter (\<lambda>t. t \<le> B) ts)) / 10 < B - l"
proof (induction ts arbitrary: l)
  case Nil
  then show ?case by simp
next
  case (Cons a ts)
  from Cons.prems have la: "a - l > 1 / 10" and g: "gap_from a ts" by simp_all
  show ?case
  proof (cases "a \<le> B")
    case True
    show ?thesis
    proof (cases "filter (\<lambda>t. t \<le> B) ts = []")
      case True
      with \<open>a \<le> B\<close> la show ?thesis by simp
    next
      case False
      from Cons.IH[OF g False] have "real (length (filter (\<lambda>t. t \<le> B) ts)) / 10 < B - a" .
      with \<open>a \<le> B\<close> la show ?thesis by (simp add: field_simps)
    qed
  next
    case False
    have "filter (\<lambda>t. t \<le> B) ts = []"
    proof -
      have "\<forall>t \<in> set ts. \<not> t \<le> B"
        using gap_from_greater[OF g] False by force
      then show ?thesis by (simp add: filter_empty_conv)
    qed
    with False Cons.prems(2) show ?thesis by simp
  qed
qed

lemma gap_from_window:
  "gap_from l ts \<Longrightarrow> length (filter (\<lambda>t. T \<le> t \<and> t \<le> T + 1) ts) \<le> 10"
proof (induction ts arbitrary: l)
  case Nil
  then show ?case by simp
next
  case (Cons a ts)
  from Cons.prems have g: "gap_from a ts" by simp
  show ?case
  proof (cases "T \<le> a")
    case False
    then show ?thesis using Cons.IH[OF g] by simp
  next
    case True
    have all: "\<forall>t \<in> set ts. T \<le> t" using gap_from_greater[OF g] True by force
    then have eq: "filter (\<lambda>t. T \<le> t \<and> t \<le> T + 1) ts = filter (\<lambda>t. t \<le> T + 1) ts"
      by (intro filter_cong) auto
    have "length (filter (\<lambda>t. t \<le> T + 1) ts) \<le> 9"
    proof (cases "filter (\<lambda>t. t \<le> T + 1) ts = []")
      case True
      then show ?thesis by simp
    next
      case False
      from gap_from_count_below[OF g False]
      have "real (length (filter (\<lambda>t. t \<le> T + 1) ts)) / 10 < T + 1 - a" .
      with True have "real (length (filter (\<lambda>t. t \<le> T + 1) ts)) < 10" by simp
      then show ?thesis by simp
    qed
    then show ?thesis unfolding filter.simps eq by simp
  qed
qed

lemma upt_100_5: "[0 ..< 100] = 0 # 1 # 2 # 3 # 4 # [5 ..< 100]"
  by (simp add: upt_conv_Cons del: upt_Suc)

lemma to_string_1234:
  "to_string 1 = ''1''" "to_string 2 = ''2''" "to_string 3 = ''3''" "to_string 4 = ''4''"
  by code_simp+

lemma compute_four_steps:
  "compute four_step_env ''T'' =
     Inr (four_step_loop_trace @
          [SetNumber ''T result'' [sin (sin (sin 1 + cos (1 / 45)) + cos (2 / 45)) + cos (1 / 15)],
           SetString ''ONELAB/Action'' [''done computing''],
           Awake ''update''])"
  by (simp add: four_step_env_def four_step_loop_trace_def compute_def compute_run_def
      static_cast_int_def compute_init_def upt_100_5 report_progress_def Let_def to_string_1234
      del: digits_of.simps)

text \<open>
  Claim C6. The calls of a run of \<open>compute\<close> that returns are the calls of its loop followed
  by the three final calls. In the loop, \<open>gmsh::fltk::awake("update")\<close> is only issued
  directly after a clock reading that exceeds \<open>last_refresh\<close>, the time recorded at the
  previous request, by more than 0.1 seconds. When the clock does not run backwards, the
  recorded times of successive requests are therefore more than 0.1 seconds apart, and
  at most 10 of them fall in any interval of one second.
\<close>

theorem compute_awake_throttled:
  assumes "compute env arg = Inr tr"
  shows "\<exists>ltr k.
     tr = ltr @ [SetNumber (arg @ '' result'') [k],
                 SetString ''ONELAB/Action'' [''done computing''],
                 Awake ''update''] \<and>
     throttled 0 ltr \<and>
     ((\<forall>i j. i \<le> j \<longrightarrow> wall_time env i \<le> wall_time env j) \<longrightarrow>
        gap_from 0 (refresh_times ltr) \<and>
        (\<forall>T. length (filter (\<lambda>t. T \<le> t \<and> t \<le> T + 1) (refresh_times ltr)) \<le> 10))"
proof -
  from compute_trace_structure[OF assms] obtain bs k fin where
    tr: "tr = [GetNumber ''My App/Iterations'', GetNumber ''My App/Show progress?''] @
          concat (map (progress_block arg) bs) @
          [SetNumber (arg @ '' result'') [k],
           SetString ''ONELAB/Action'' [''done computing''],
           Awake ''update'']"
    and c: "clocked (wall_time env) (0, 0) bs fin"
    by blast
  let ?ltr = "[GetNumber ''My App/Iterations'', GetNumber ''My App/Show progress?''] @
          concat (map (progress_block arg) bs)"
  have t: "tr = ?ltr @ [SetNumber (arg @ '' result'') [k],
                 SetString ''ONELAB/Action'' [''done computing''],
                 Awake ''update'']"
    unfolding tr by simp
  have th: "throttled 0 ?ltr" using throttled_blocks[OF c, of arg] by simp
  have rt: "refresh_times ?ltr = stamps bs" using refresh_times_blocks[of arg bs] by simp
  have rate: "gap_from 0 (refresh_times ?ltr) \<and>
        (\<forall>T. length (filter (\<lambda>t. T \<le> t \<and> t \<le> T + 1) (refresh_times ?ltr)) \<le> 10)"
    if mono: "\<forall>i j. i \<le> j \<longrightarrow> wall_time env i \<le> wall_time env j"
  proof -
    have g: "gap_from 0 (stamps bs)"
      by (rule gap_from_stamps[OF _ c]) (use mono in blast)
    from g gap_from_window[OF g] show ?thesis unfolding rt by blast
  qed
  from t th rate show ?thesis by blast
qed

text \<open>
  The theorem at the run stopped at iteration 4: of four progress reports, the first and
  the fourth request a refresh (at the times 1.05 and 1.25), the second and the third,
  less than 0.1 seconds after the first, do not.
\<close>

theorem compute_awake_throttled_witness:
  "compute four_step_env ''T'' =
     Inr (four_step_loop_trace @
          [SetNumber ''T result'' [sin (sin (sin 1 + cos (1 / 45)) + cos (2 / 45)) + cos (1 / 15)],
           SetString ''ONELAB/Action'' [''done computing''],
           Awake ''update'']) \<and>
   throttled 0 four_step_loop_trace \<and>
   refresh_times four_step_loop_trace = [21 / 20, 5 / 4] \<and>
   gap_from 0 (refresh_times four_step_loop_trace) \<and>
   length (filter (\<lambda>t. 1 \<le> t \<and> t \<le> 1 + 1) (refresh_times four_step_loop_trace)) \<le> 10"
proof -
  from compute_awake_throttled[OF compute_four_steps] obtain ltr k where
    tr: "four_step_loop_trace @
          [SetNumber ''T result'' [sin (sin (sin 1 + cos (1 / 45)) + cos (2 / 45)) + cos (1 / 15)],
           SetString ''ONELAB/Action'' [''done computing''],
           Awake ''update''] =
         ltr @ [SetNumber (''T'' @ '' result'') [k],
                 SetString ''ONELAB/Action'' [''done computing''],
                 Awake ''update'']"
    and th: "throttled 0 ltr"
    and rate: "(\<forall>i j. i \<le> j \<longrightarrow> wall_time four_step_env i \<le> wall_time four_step_env j) \<longrightarrow>
        gap_from 0 (refresh_times ltr) \<and>
        (\<forall>T. length (filter (\<lambda>t. T \<le> t \<and> t \<le> T + 1) (refresh_times ltr)) \<le> 10)"
    by blast
  from tr have ltr: "ltr = four_step_loop_trace" by simp
  have mono: "\<forall>i j. i \<le> j \<longrightarrow> wall_time four_step_env i \<le> wall_time four_step_env j"
    by (simp add: four_step_env_def field_simps)
  from rate mono have g: "gap_from 0 (refresh_times four_step_loop_trace)"
    and w: "length (filter (\<lambda>t. 1 \<le> t \<and> t \<le> 1 + 1) (refresh_times four_step_loop_trace)) \<le> 10"
    unfolding ltr by blast+
  have rt: "refresh_times four_step_loop_trace = [21 / 20, 5 / 4]"
    by (simp add: four_step_loop_trace_def)
  from compute_four_steps th[unfolded ltr] rt g w show ?thesis by blast
qed

section \<open>Early exits of the C++ examples\<close>

lemma code_other: "\<forall>i. i \<noteq> k \<longrightarrow> code i = 0 \<Longrightarrow> i \<noteq> k \<Longrightarrow> code i = (0::int)"
  by blast

lemmas run_simps = run_def emit_def Let_def eval_nat_numeral

lemma early_exitI:
  "tr = pre @ [Api f args (Some c), Api ''gmsh::logger::write'' msg (Some 0)] @ fin @ [Returned 0] \<Longrightarrow>
   length pre = k \<Longrightarrow> fin = [] \<or> fin = [Api ''gmsh::finalize'' [] (Some 0)] \<Longrightarrow>
   early_exit k c tr"
  unfolding early_exit_def by blast

lemma t7_cpp_throw:
  assumes "code 1 \<noteq> 0" "\<forall>i. i \<noteq> 1 \<longrightarrow> code i = 0"
  shows "run code (t7_cpp_main rest) =
           [Api ''gmsh::initialize'' [] (Some 0)] @
           [Api ''gmsh::merge'' ''../t7_bgmesh.pos'' (Some (code 1)),
            Api ''gmsh::logger::write'' ''Could not load background mesh: bye!'' (Some 0)] @
           [Api ''gmsh::finalize'' [] (Some 0)] @ [Returned 0]"
  using assms(1) by (simp add: t7_cpp_main_def run_simps code_other[OF assms(2)])

lemma t9_cpp_throw:
  assumes "code 2 \<noteq> 0" "\<forall>i. i \<noteq> 2 \<longrightarrow> code i = 0"
  shows "run code (t9_cpp_main rest) =
           [Api ''gmsh::initialize'' [] (Some 0),
            Api ''gmsh::model::add'' ''t9'' (Some 0)] @
           [Api ''gmsh::merge'' ''../view3.pos'' (Some (code 2)),
            Api ''gmsh::logger::write'' ''Could not load post-processing views: bye!'' (Some 0)] @
           [Api ''gmsh::finalize'' [] (Some 0)] @ [Returned 0]"
  using assms(1) by (simp add: t9_cpp_main_def run_simps code_other[OF assms(2)])

lemma t17_cpp_throw:
  assumes "code 4 \<noteq> 0" "\<forall>i. i \<noteq> 4 \<longrightarrow> code i = 0"
  shows "run code (t17_cpp_main rest) =
           [Api ''gmsh::initialize'' [] (Some 0),
            Api ''gmsh::model::add'' ''t17'' (Some 0),
            Api ''gmsh::model::occ::addRectangle'' ''-2, -2, 0, 4, 4'' (Some 0),
            Api ''gmsh::model::occ::synchronize'' [] (Some 0)] @
           [Api ''gmsh::merge'' ''../t17_bgmesh.pos'' (Some (code 4)),
            Api ''gmsh::logger::write'' ''Could not load background mesh: bye!'' (Some 0)] @
           [Api ''gmsh::finalize'' [] (Some 0)] @ [Returned 0]"
  using assms(1) by (simp add: t17_cpp_main_def run_simps code_other[OF assms(2)])

lemma t20_cpp_throw:
  assumes "code 2 \<noteq> 0" "\<forall>i. i \<noteq> 2 \<longrightarrow> code i = 0"
  shows "run code (t20_cpp_main rest) =
           [Api ''gmsh::initialize'' ''argc, argv'' (Some 0),
            Api ''gmsh::model::add'' ''t20'' (Some 0)] @
           [Api ''gmsh::model::occ::importShapes'' ''../t20_data.step, v'' (Some (code 2)),
            Api ''gmsh::logger::write'' ''Could not load STEP file: bye!'' (Some 0)] @
           [Api ''gmsh::finalize'' [] (Some 0)] @ [Returned 0]"
  using assms(1) by (simp add: t20_cpp_main_def run_simps code_other[OF assms(2)])

lemma t16_cpp_throw_first:
  assumes "code 3 \<noteq> 0" "\<forall>i. i \<noteq> 3 \<longrightarrow> code i = 0"
  shows "run code (t16_cpp_main rest) =
           [Api ''gmsh::initialize'' ''argc, argv'' (Some 0),
            Api ''gmsh::model::add'' ''t16'' (Some 0),
            Api ''gmsh::logger::start'' [] (Some 0)] @
           [Api ''gmsh::model::occ::addBox'' ''0, 0, 0, 1, 1, 1, 1'' (Some (code 3)),
            Api ''gmsh::logger::write'' ''Could not create OpenCASCADE shapes: bye!'' (Some 0)] @
           [] @ [Returned 0]"
  using assms(1) by (simp add: t16_cpp_main_def run_simps code_other[OF assms(2)])

lemma t16_cpp_throw_second:
  assumes "code 4 \<noteq> 0" "\<forall>i. i \<noteq> 4 \<longrightarrow> code i = 0"
  shows "run code (t16_cpp_main rest) =
           [Api ''gmsh::initialize'' ''argc, argv'' (Some 0),
            Api ''gmsh::model::add'' ''t16'' (Some 0),
            Api ''gmsh::logger::start'' [] (Some 0),
            Api ''gmsh::model::occ::addBox'' ''0, 0, 0, 1, 1, 1, 1'' (Some 0)] @
           [Api ''gmsh::model::occ::addBox'' ''0, 0, 0, 0.5, 0.5, 0.5, 2'' (Some (code 4)),
            Api ''gmsh::logger::write'' ''Could not create OpenCASCADE shapes: bye!'' (Some 0)] @
           [] @ [Returned 0]"
  using assms(1) by (simp add: t16_cpp_main_def run_simps code_other[OF assms(2)])

lemma t8_cpp_throw_first:
  assumes "code 13 \<noteq> 0" "\<forall>i. i \<noteq> 13 \<longrightarrow> code i = 0"
  shows "run code (t8_cpp_main rest) =
           t8_cpp_geometry @
           [Api ''gmsh::merge'' ''../view1.pos'' (Some (code 13)),
            Api ''gmsh::logger::write'' ''Could not load post-processing views: bye!'' (Some 0)] @
           [Api ''gmsh::finalize'' [] (Some 0)] @ [Returned 0]"
  using assms(1)
  by (simp add: t8_cpp_main_def t8_cpp_geometry_def run_simps code_other[OF assms(2)])

lemma t8_cpp_throw_second:
  assumes "code 14 \<noteq> 0" "\<forall>i. i \<noteq> 14 \<longrightarrow> code i = 0"
  shows "run code (t8_cpp_main rest) =
           (t8_cpp_geometry @ [Api ''gmsh::merge'' ''../view1.pos'' (Some 0)]) @
           [Api ''gmsh::merge'' ''../view1.pos'' (Some (code 14)),
            Api ''gmsh::logger::write'' ''Could not load post-processing views: bye!'' (Some 0)] @
           [Api ''gmsh::finalize'' [] (Some 0)] @ [Returned 0]"
  using assms(1)
  by (simp add: t8_cpp_main_def t8_cpp_geometry_def run_simps code_other[OF assms(2)])

lemma t8_cpp_throw_third:
  assumes "code 15 \<noteq> 0" "\<forall>i. i \<noteq> 15 \<longrightarrow> code i = 0"
  shows "run code (t8_cpp_main rest) =
           (t8_cpp_geometry @ [Api ''gmsh::merge'' ''../view1.pos'' (Some 0),
                               Api ''gmsh::merge'' ''../view1.pos'' (Some 0)]) @
           [Api ''gmsh::merge'' ''../view4.pos'' (Some (code 15)),
            Api ''gmsh::logger::write'' ''Could not load post-processing views: bye!'' (Some 0)] @
           [Api ''gmsh::finalize'' [] (Some 0)] @ [Returned 0]"
  using assms(1)
  by (simp add: t8_cpp_main_def t8_cpp_geometry_def run_simps code_other[OF assms(2)])

lemma guarded_throw_aux:
  assumes ex: "(prog, a, b) \<in> set try_catch_examples"
    and k: "a \<le> k" "k < b"
    and c: "code k \<noteq> 0" "\<forall>i. i \<noteq> k \<longrightarrow> code i = 0"
  shows "early_exit k (code k) (run code (prog rest)) \<and>
         run code (prog rest) = run code (prog [])"
proof -
  from ex consider
    (t7) "prog = t7_cpp_main" "a = 1" "b = 2"
    | (t8) "prog = t8_cpp_main" "a = 13" "b = 16"
    | (t9) "prog = t9_cpp_main" "a = 2" "b = 3"
    | (t16) "prog = t16_cpp_main" "a = 3" "b = 5"
    | (t17) "prog = t17_cpp_main" "a = 4" "b = 5"
    | (t20) "prog = t20_cpp_main" "a = 2" "b = 3"
    by (auto simp: try_catch_examples_def)
  then show ?thesis
  proof cases
    case t7
    with k have kk: "k = 1" by simp
    note r = t7_cpp_throw[OF c[unfolded kk]]
    have "early_exit k (code k) (run code (prog rest))"
      unfolding kk t7(1) by (rule early_exitI[OF r]) simp_all
    moreover have "run code (prog rest) = run code (prog [])"
      unfolding t7(1) r[of rest] r[of "[]"] ..
    ultimately show ?thesis ..
  next
    case t9
    with k have kk: "k = 2" by simp
    note r = t9_cpp_throw[OF c[unfolded kk]]
    have "early_exit k (code k) (run code (prog rest))"
      unfolding kk t9(1) by (rule early_exitI[OF r]) simp_all
    moreover have "run code (prog rest) = run code (prog [])"
      unfolding t9(1) r[of rest] r[of "[]"] ..
    ultimately show ?thesis ..
  next
    case t17
    with k have kk: "k = 4" by simp
    note r = t17_cpp_throw[OF c[unfolded kk]]
    have "early_exit k (code k) (run code (prog rest))"
      unfolding kk t17(1) by (rule early_exitI[OF r]) simp_all
    moreover have "run code (prog rest) = run code (prog [])"
      unfolding t17(1) r[of rest] r[of "[]"] ..
    ultimately show ?thesis ..
  next
    case t20
    with k have kk: "k = 2" by simp
    note r = t20_cpp_throw[OF c[unfolded kk]]
    have "early_exit k (code k) (run code (prog rest))"
      unfolding kk t20(1) by (rule early_exitI[OF r]) simp_all
    moreover have "run code (prog rest) = run code (prog [])"
      unfolding t20(1) r[of rest] r[of "[]"] ..
    ultimately show ?thesis ..
  next
    case t16
    with k consider "k = 3" | "k = 4" by force
    then show ?thesis
    proof cases
      case 1
      note r = t16_cpp_throw_first[OF c[unfolded 1]]
      have "early_exit k (code k) (run code (prog rest))"
        unfolding 1 t16(1) by (rule early_exitI[OF r]) simp_all
      moreover have "run code (prog rest) = run code (prog [])"
        unfolding t16(1) r[of rest] r[of "[]"] ..
      ultimately show ?thesis ..
    next
      case 2
      note r = t16_cpp_throw_second[OF c[unfolded 2]]
      have "early_exit k (code k) (run code (prog rest))"
        unfolding 2 t16(1) by (rule early_exitI[OF r]) simp_all
      moreover have "run code (prog rest) = run code (prog [])"
        unfolding t16(1) r[of rest] r[of "[]"] ..
      ultimately show ?thesis ..
    qed
  next
    case t8
    with k consider "k = 13" | "k = 14" | "k = 15" by force
    then show ?thesis
    proof cases
      case 1
      note r = t8_cpp_throw_first[OF c[unfolded 1]]
      have "early_exit k (code k) (run code (prog rest))"
        unfolding 1 t8(1) by (rule early_exitI[OF r]) (simp_all add: t8_cpp_geometry_def)
      moreover have "run code (prog rest) = run code (prog [])"
        unfolding t8(1) r[of rest] r[of "[]"] ..
      ultimately show ?thesis ..
    next
      case 2
      note r = t8_cpp_throw_second[OF c[unfolded 2]]
      have "early_exit k (code k) (run code (prog rest))"
        unfolding 2 t8(1) by (rule early_exitI[OF r]) (simp_all add: t8_cpp_geometry_def)
      moreover have "run code (prog rest) = run code (prog [])"
        unfolding t8(1) r[of rest] r[of "[]"] ..
      ultimately show ?thesis ..
    next
      case 3
      note r = t8_cpp_throw_third[OF c[unfolded 3]]
      have "early_exit k (code k) (run code (prog rest))"
        unfolding 3 t8(1) by (rule early_exitI[OF r]) (simp_all add: t8_cpp_geometry_def)
      moreover have "run code (prog rest) = run code (prog [])"
        unfolding t8(1) r[of rest] r[of "[]"] ..
      ultimately show ?thesis ..
    qed
  qed
qed

text \<open>
  Claim C5. The C++ examples with a \<open>try\<close> block are \<open>t7\<close>, \<open>t8\<close>, \<open>t9\<close>, \<open>t16\<close>, \<open>t17\<close> and
  \<open>t20.cpp\<close>. In each of them, when a call inside the \<open>try\<close> block throws (the calls before
  it and the calls of the handler succeeding), the run continues with
  \<open>gmsh::logger::write\<close> of a message, in all but \<open>t16.cpp\<close> with \<open>gmsh::finalize\<close>, and with
  the return of 0 from \<open>main\<close>, and nothing else: the run is the same whatever statements
  follow the \<open>catch\<close> block, so none of them is executed.
\<close>

theorem guarded_throw_logs_and_returns:
  assumes "(prog, a, b) \<in> set try_catch_examples"
    and "a \<le> k" "k < b"
    and "code k \<noteq> 0" "\<forall>i. i \<noteq> k \<longrightarrow> code i = 0"
  shows "(\<exists>pre f args msg fin.
            run code (prog rest) =
              pre @ [Api f args (Some (code k)), Api ''gmsh::logger::write'' msg (Some 0)] @ fin @
              [Returned 0] \<and>
            length pre = k \<and> (fin = [] \<or> fin = [Api ''gmsh::finalize'' [] (Some 0)])) \<and>
         run code (prog rest) = run code (prog [])"
  using guarded_throw_aux[OF assms] unfolding early_exit_def .

lemma fails_at_code: "fails_at k k \<noteq> 0" "\<forall>i. i \<noteq> k \<longrightarrow> fails_at k i = 0"
  by (simp_all add: fails_at_def)

lemma fails_at_self: "fails_at k k = 1"
  by (simp add: fails_at_def)

text \<open>
  The theorem at \<open>t8.cpp\<close> when the second \<open>gmsh::merge\<close> (call number 14) throws: the
  \<open>setNumber\<close> call that follows the \<open>catch\<close> block in the source is not made.
\<close>

theorem guarded_throw_logs_and_returns_witness:
  "(t8_cpp_main, 13, 16) \<in> set try_catch_examples \<and> (13::nat) \<le> 14 \<and> (14::nat) < 16 \<and>
   fails_at 14 14 \<noteq> 0 \<and>
   run (fails_at 14) (t8_cpp_main [Call ''gmsh::option::setNumber'' ''General.Trackball, 0'']) =
   run (fails_at 14) (t8_cpp_main [])"
proof -
  have m: "(t8_cpp_main, 13, 16) \<in> set try_catch_examples"
    by (simp add: try_catch_examples_def)
  from guarded_throw_logs_and_returns[OF m _ _ fails_at_code, of 14
      "[Call ''gmsh::option::setNumber'' ''General.Trackball, 0'']"]
  have "run (fails_at 14) (t8_cpp_main [Call ''gmsh::option::setNumber'' ''General.Trackball, 0'']) =
        run (fails_at 14) (t8_cpp_main [])"
    by simp
  with m fails_at_code(1)[of 14] show ?thesis by simp
qed

text \<open>
  Claim C3 fails on the code. When the first \<open>gmsh::model::occ::addBox\<close> of \<open>t16.cpp\<close>
  throws, \<open>main\<close> writes its message and returns 0 without a call of \<open>gmsh::finalize\<close>,
  where the handler of \<open>t7.cpp\<close> (as those of \<open>t8\<close>, \<open>t9\<close>, \<open>t17\<close> and \<open>t20.cpp\<close>) calls it
  before returning. Likewise \<open>t16.c\<close> returns without \<open>gmshFinalize\<close> when
  \<open>gmshModelOccAddBox\<close> fails.
\<close>

theorem t16_early_exit_without_finalize:
  "run (fails_at 3) (t16_cpp_main rest) =
     [Api ''gmsh::initialize'' ''argc, argv'' (Some 0),
      Api ''gmsh::model::add'' ''t16'' (Some 0),
      Api ''gmsh::logger::start'' [] (Some 0),
      Api ''gmsh::model::occ::addBox'' ''0, 0, 0, 1, 1, 1, 1'' (Some 1),
      Api ''gmsh::logger::write'' ''Could not create OpenCASCADE shapes: bye!'' (Some 0),
      Returned 0] \<and>
   run (fails_at 1) (t7_cpp_main rest) =
     [Api ''gmsh::initialize'' [] (Some 0),
      Api ''gmsh::merge'' ''../t7_bgmesh.pos'' (Some 1),
      Api ''gmsh::logger::write'' ''Could not load background mesh: bye!'' (Some 0),
      Api ''gmsh::finalize'' [] (Some 0),
      Returned 0] \<and>
   run (fails_at 2) (t16_c_main crest) =
     [Api ''gmshInitialize'' ''argc, argv, 1, 0'' (Some 0),
      Api ''gmshModelAdd'' ''t16'' (Some 0),
      Api ''gmshModelOccAddBox'' ''0, 0, 0, 1, 1, 1, 1'' (Some 1),
      Stdout ''Could not create OpenCASCADE shapes: bye!'' [],
      Returned 0]"
proof -
  have a: "run (fails_at 3) (t16_cpp_main rest) =
     [Api ''gmsh::initialize'' ''argc, argv'' (Some 0),
      Api ''gmsh::model::add'' ''t16'' (Some 0),
      Api ''gmsh::logger::start'' [] (Some 0),
      Api ''gmsh::model::occ::addBox'' ''0, 0, 0, 1, 1, 1, 1'' (Some 1),
      Api ''gmsh::logger::write'' ''Could not create OpenCASCADE shapes: bye!'' (Some 0),
      Returned 0]"
    using t16_cpp_throw_first[OF fails_at_code, of rest] unfolding fails_at_self by simp
  have b: "run (fails_at 1) (t7_cpp_main rest) =
     [Api ''gmsh::initialize'' [] (Some 0),
      Api ''gmsh::merge'' ''../t7_bgmesh.pos'' (Some 1),
      Api ''gmsh::logger::write'' ''Could not load background mesh: bye!'' (Some 0),
      Api ''gmsh::finalize'' [] (Some 0),
      Returned 0]"
    using t7_cpp_throw[OF fails_at_code, of rest] unfolding fails_at_self by simp
  have c: "run (fails_at 2) (t16_c_main crest) =
     [Api ''gmshInitialize'' ''argc, argv, 1, 0'' (Some 0),
      Api ''gmshModelAdd'' ''t16'' (Some 0),
      Api ''gmshModelOccAddBox'' ''0, 0, 0, 1, 1, 1, 1'' (Some 1),
      Stdout ''Could not create OpenCASCADE shapes: bye!'' [],
      Returned 0]"
    by (simp add: t16_c_main_def run_simps fails_at_def)
  from a b c show ?thesis by blast
qed

section \<open>The error checks of the C examples\<close>

lemma all_ok_simps:
  "all_ok []"
  "all_ok (Api f a (Some c) # r) \<longleftrightarrow> c = 0 \<and> all_ok r"
  "all_ok (Api f a None # r) \<longleftrightarrow> all_ok r"
  "all_ok (Stdout fmt args # r) \<longleftrightarrow> all_ok r"
  by (auto simp: all_ok_def)

lemma chk_enforced_all_ok: "all_ok a \<Longrightarrow> chk_enforced st (a @ b) = chk_enforced st b"
proof (induction st a rule: chk_enforced.induct)
  case (1 st)
  then show ?case by simp
next
  case (2 st f a c r)
  then show ?case by (simp add: all_ok_simps)
qed (simp_all add: all_ok_def)

lemma exec_chk:
  "exec code (chk st line func) s =
     (if rs_ierr s \<noteq> 0 then
        (Done, s\<lparr>rs_calls := Suc (rs_calls s),
                 rs_trace := rs_trace s @
                   [Stderr chk_format [to_string line, func, to_string (rs_ierr s)],
                    Api ''gmshFinalize'' ''NULL'' None,
                    ExitedWith (exit_status (rs_ierr s) st)]\<rparr>)
      else (Next, s))"
  by (simp add: chk_def emit_def)

lemma emit_simps:
  "rs_ierr (emit e s) = rs_ierr s"
  "rs_calls (emit e s) = rs_calls s"
  "rs_trace (emit e s) = rs_trace s @ [e]"
  by (simp_all add: emit_def)

lemma exec_checked:
  "chk_after_every_call st P \<Longrightarrow> rs_ierr s = 0 \<Longrightarrow> exec_list code P s = (fl, s') \<Longrightarrow>
   fl \<noteq> Thrown \<and>
   (\<exists>new. rs_trace s' = rs_trace s @ new \<and>
      (if fl = Next then all_ok new \<and> rs_ierr s' = 0 else chk_enforced st new))"
proof (induction st P arbitrary: s rule: chk_after_every_call.induct)
  case (1 st)
  then have "fl = Next" "s' = s" by simp_all
  then show ?case using 1 by (simp add: all_ok_simps)
next
  case (2 st f a x r)
  from 2(2) obtain line func where x: "x = chk st line func" and g: "chk_after_every_call st r"
    by auto
  let ?c = "code (rs_calls s)"
  let ?s1 = "emit (Api f a (Some ?c)) (s\<lparr>rs_calls := Suc (rs_calls s), rs_ierr := ?c\<rparr>)"
  have s1: "rs_trace ?s1 = rs_trace s @ [Api f a (Some ?c)]" "rs_ierr ?s1 = ?c"
    by (simp_all add: emit_def)
  show ?case
  proof (cases "?c = 0")
    case True
    with 2(4) have run: "exec_list code r ?s1 = (fl, s')"
      by (simp add: x exec_chk Let_def emit_simps del: exec.simps(7))
    have "rs_ierr ?s1 = 0" using True s1 by simp
    from 2(1)[OF g this run] obtain new where
      n: "fl \<noteq> Thrown" "rs_trace s' = rs_trace ?s1 @ new"
      "if fl = Next then all_ok new \<and> rs_ierr s' = 0 else chk_enforced st new"
      by blast
    have "rs_trace s' = rs_trace s @ (Api f a (Some 0) # new)"
      using n(2) s1 True by simp
    moreover have "if fl = Next then all_ok (Api f a (Some 0) # new) \<and> rs_ierr s' = 0
                   else chk_enforced st (Api f a (Some 0) # new)"
      using n(3) by (simp add: all_ok_simps)
    ultimately show ?thesis using n(1) by blast
  next
    case False
    let ?new = "[Api f a (Some ?c),
                 Stderr chk_format [to_string line, func, to_string ?c],
                 Api ''gmshFinalize'' ''NULL'' None,
                 ExitedWith (exit_status ?c st)]"
    from False 2(4) have fl: "fl = Done" and t: "rs_trace s' = rs_trace s @ ?new"
      by (auto simp: x exec_chk Let_def emit_simps simp del: exec.simps(7))
    have "chk_enforced st ?new" using False by auto
    with fl t show ?thesis by auto
  qed
next
  case (3 st f a)
  then show ?case by simp
next
  case (4 st fmt args r)
  let ?s1 = "emit (Stdout fmt (map (render (rs_ierr s)) args)) s"
  from 4(4) have run: "exec_list code r ?s1 = (fl, s')" by simp
  have i: "rs_ierr ?s1 = 0" using 4(3) by (simp add: emit_def)
  from 4(2) have g: "chk_after_every_call st r" by simp
  from 4(1)[OF g i run] obtain new where
    n: "fl \<noteq> Thrown" "rs_trace s' = rs_trace ?s1 @ new"
    "if fl = Next then all_ok new \<and> rs_ierr s' = 0 else chk_enforced st new"
    by blast
  have "rs_trace s' = rs_trace s @ (Stdout fmt (map (render (rs_ierr s)) args) # new)"
    using n(2) by (simp add: emit_def)
  moreover have "if fl = Next then all_ok (Stdout fmt (map (render (rs_ierr s)) args) # new) \<and> rs_ierr s' = 0
                 else chk_enforced st (Stdout fmt (map (render (rs_ierr s)) args) # new)"
    using n(3) by (simp add: all_ok_simps)
  ultimately show ?case using n(1) by blast
next
  case (5 st f a r)
  let ?s1 = "emit (Api f a None) (s\<lparr>rs_calls := Suc (rs_calls s)\<rparr>)"
  from 5(4) have run: "exec_list code r ?s1 = (fl, s')" by simp
  have i: "rs_ierr ?s1 = 0" using 5(3) by (simp add: emit_def)
  from 5(2) have g: "chk_after_every_call st r" by simp
  from 5(1)[OF g i run] obtain new where
    n: "fl \<noteq> Thrown" "rs_trace s' = rs_trace ?s1 @ new"
    "if fl = Next then all_ok new \<and> rs_ierr s' = 0 else chk_enforced st new"
    by blast
  have "rs_trace s' = rs_trace s @ (Api f a None # new)"
    using n(2) by (simp add: emit_def)
  moreover have "if fl = Next then all_ok (Api f a None # new) \<and> rs_ierr s' = 0
                 else chk_enforced st (Api f a None # new)"
    using n(3) by (simp add: all_ok_simps)
  ultimately show ?case using n(1) by blast
next
  case (6 st n r)
  then have "fl = Done" "rs_trace s' = rs_trace s @ [Returned n]"
    by (auto simp: emit_def)
  then show ?case by auto
next
  case (7 st w r)
  then have "fl = Done" "rs_trace s' = rs_trace s @ [Crashed w]"
    by (auto simp: emit_def)
  then show ?case by auto
qed simp_all

lemma run_checked:
  assumes "chk_after_every_call st P"
  shows "chk_enforced st (run code P)"
proof -
  let ?s0 = "\<lparr>rs_calls = 0, rs_ierr = 0, rs_trace = []\<rparr>"
  obtain fl s' where r: "exec_list code P ?s0 = (fl, s')" by (cases "exec_list code P ?s0")
  from exec_checked[OF assms _ r] obtain new where
    n: "fl \<noteq> Thrown" "rs_trace s' = new"
    "if fl = Next then all_ok new \<and> rs_ierr s' = 0 else chk_enforced st new"
    by auto
  show ?thesis
  proof (cases fl)
    case Next
    with n have "all_ok new" by simp
    from chk_enforced_all_ok[OF this, of st "[Returned 0]"]
    show ?thesis using Next n(2) r by (simp add: run_def)
  next
    case Thrown
    with n show ?thesis by simp
  next
    case Done
    with n r show ?thesis by (simp add: run_def)
  qed
qed

lemma chk_is_chk: "\<exists>line func. chk st l f = chk st line func"
  by blast

lemma chk_after_every_call_append:
  "chk_after_every_call st a \<Longrightarrow> chk_after_every_call st b \<Longrightarrow>
   chk_after_every_call st (a @ b)"
  by (induction st a rule: chk_after_every_call.induct) simp_all

lemma chk_after_every_call_concat:
  "(\<And>x. x \<in> set xs \<Longrightarrow> chk_after_every_call st x) \<Longrightarrow> chk_after_every_call st (concat xs)"
  by (induction xs) (simp_all add: chk_after_every_call_append)

lemma chk_after_every_call_replicate:
  "chk_after_every_call st (replicate n (Printf fmt args))"
  "chk_after_every_call st (replicate n (CCallNoErr f a))"
  by (induction n) simp_all

lemma printElements_checked: "chk_after_every_call st (printElements t)"
proof -
  obtain ne nv where t: "t = (ne, nv)" by (cases t)
  have body: "chk_after_every_call st
      ([Printf ''%lu ( '' [Str ''elementTags[i][j]'']] @
       replicate (nv div ne) (Printf ''%lu '' [Str ''vertexTags[i][j*nnodesbyel+k]'']) @
       [Printf '') '' []])"
    by (intro chk_after_every_call_append chk_after_every_call_replicate) simp_all
  have "chk_after_every_call st
      (concat (replicate (min ne 3)
         ([Printf ''%lu ( '' [Str ''elementTags[i][j]'']] @
          replicate (nv div ne) (Printf ''%lu '' [Str ''vertexTags[i][j*nnodesbyel+k]'']) @
          [Printf '') '' []])))"
    by (rule chk_after_every_call_concat) (use body in simp)
  then show ?thesis
    unfolding printElements_def t
    by (auto intro!: chk_after_every_call_append)
qed

lemma printEntity_checked: "chk_after_every_call (Num 0) (printEntity types)"
proof -
  have "chk_after_every_call (Num 0) (concat (map printElements types))"
    by (rule chk_after_every_call_concat) (auto simp: printElements_checked)
  then show ?thesis
    unfolding printEntity_def
    by (auto intro!: chk_after_every_call_append chk_after_every_call_replicate
        simp: chk_is_chk)
qed

lemma printMesh_checked: "chk_after_every_call (Num 0) (printMesh entities)"
proof -
  have "chk_after_every_call (Num 0) (concat (map printEntity entities))"
    by (rule chk_after_every_call_concat) (auto simp: printEntity_checked)
  then show ?thesis
    unfolding printMesh_def
    by (auto intro!: chk_after_every_call_append simp: chk_is_chk)
qed

lemma genGeometry_checked: "chk_after_every_call (Num 0) genGeometry"
  by (simp add: genGeometry_def chk_is_chk)

lemma genError_checked: "chk_after_every_call (Num 0) genError"
  by (simp add: genError_def chk_is_chk)

lemma test_c_main_checked: "chk_after_every_call (Num 0) (test_c_main entities)"
  unfolding test_c_main_def
  by (intro chk_after_every_call_append printMesh_checked genGeometry_checked genError_checked)
     (simp_all add: chk_is_chk)

lemma onelab_run_auto_c_main_checked: "chk_after_every_call Ierr (onelab_run_auto_c_main argc)"
  by (simp add: onelab_run_auto_c_main_def chk_is_chk)

text \<open>
  Claim C2, as stated, fails: \<open>simple.c\<close> has no \<open>chk\<close>. In the run where \<open>gmshModelAdd\<close>
  gives the code 1, the program makes its thirteen remaining calls, prints nothing, and
  returns 0.
\<close>

theorem simple_c_ignores_error_code:
  "run (fails_at 1) simple_c_main =
     [Api ''gmshInitialize'' ''argc, argv, 1, 0'' (Some 0),
      Api ''gmshModelAdd'' ''square'' (Some 1),
      Api ''gmshModelGeoAddPoint'' ''0, 0, 0, 0.1, 1'' (Some 0),
      Api ''gmshModelGeoAddPoint'' ''1, 0, 0, 0.1, 2'' (Some 0),
      Api ''gmshModelGeoAddPoint'' ''1, 1, 0, 0.1, 3'' (Some 0),
      Api ''gmshModelGeoAddPoint'' ''0, 1, 0, 0.1, 4'' (Some 0),
      Api ''gmshModelGeoAddLine'' ''1, 2, 1'' (Some 0),
      Api ''gmshModelGeoAddLine'' ''2, 3, 2'' (Some 0),
      Api ''gmshModelGeoAddLine'' ''3, 4, 3'' (Some 0),
      Api ''gmshModelGeoAddLine'' ''4, 1, -1'' (Some 0),
      Api ''gmshModelGeoAddCurveLoop'' ''ll, 4, 1, 0'' (Some 0),
      Api ''gmshModelGeoAddPlaneSurface'' ''s, 1, 6'' (Some 0),
      Api ''gmshModelGeoSynchronize'' [] (Some 0),
      Api ''gmshModelMeshGenerate'' ''2'' (Some 0),
      Api ''gmshWrite'' ''square.msh'' (Some 0),
      Returned 0] \<and>
   \<not> chk_enforced (Num 0) (run (fails_at 1) simple_c_main) \<and>
   \<not> chk_enforced Ierr (run (fails_at 1) simple_c_main)"
  by (simp add: run_def simple_c_main_def fails_at_def emit_def)

text \<open>
  Claim C2, amended. In \<open>test.c\<close> and \<open>onelab_run_auto.c\<close>, the C examples that define the
  macro \<open>chk\<close>, every Gmsh API call that passes \<open>&ierr\<close> is directly followed by
  \<open>chk(ierr)\<close>. When the code is non-zero, \<open>chk\<close> prints the line, the function and the code
  to \<open>stderr\<close>, calls \<open>gmshFinalize(NULL)\<close> and exits the process, with status 0 in \<open>test.c\<close>
  and with the code in \<open>onelab_run_auto.c\<close>; when the code is zero it does nothing. So in
  every run of these two programs the first call that gives a non-zero code is
  directly followed by the message, \<open>gmshFinalize(NULL)\<close> and the exit.
\<close>

theorem chk_after_every_call_in_test_and_onelab_run_auto:
  "chk_after_every_call (Num 0) (test_c_main entities) \<and>
   chk_after_every_call Ierr (onelab_run_auto_c_main argc) \<and>
   chk_enforced (Num 0) (run code (test_c_main entities)) \<and>
   chk_enforced Ierr (run code (onelab_run_auto_c_main argc)) \<and>
   (rs_ierr s \<noteq> 0 \<longrightarrow>
      exec code (chk st line func) s =
        (Done, s\<lparr>rs_calls := Suc (rs_calls s),
                 rs_trace := rs_trace s @
                   [Stderr chk_format [to_string line, func, to_string (rs_ierr s)],
                    Api ''gmshFinalize'' ''NULL'' None,
                    ExitedWith (exit_status (rs_ierr s) st)]\<rparr>)) \<and>
   (rs_ierr s = 0 \<longrightarrow> exec code (chk st line func) s = (Next, s))"
  using test_c_main_checked onelab_run_auto_c_main_checked
    run_checked[OF test_c_main_checked] run_checked[OF onelab_run_auto_c_main_checked]
  by (simp add: exec_chk)

lemma to_string_small: "to_string 26 = ''26''" "to_string 7 = ''7''"
  by code_simp+

text \<open>
  The theorem at the run of \<open>onelab_run_auto.c\<close> in which \<open>gmshOpen\<close> gives the code 7, and
  at the \<open>chk\<close> of line 86 of \<open>test.c\<close> with \<open>ierr = 7\<close>.
\<close>

theorem chk_after_every_call_in_test_and_onelab_run_auto_witness:
  "run (\<lambda>i. if i = 1 then 7 else 0) (onelab_run_auto_c_main 2) =
     [Api ''gmshInitialize'' ''0, 0, 1, 0'' (Some 0),
      Api ''gmshOpen'' ''argv[1]'' (Some 7),
      Stderr chk_format [''26'', ''main'', ''7''],
      Api ''gmshFinalize'' ''NULL'' None,
      ExitedWith 7] \<and>
   chk_enforced Ierr (run (\<lambda>i. if i = 1 then 7 else 0) (onelab_run_auto_c_main 2)) \<and>
   exec (\<lambda>i. if i = 1 then 7 else 0) (chk (Num 0) 86 ''main'') \<lparr>rs_calls = 1, rs_ierr = 7, rs_trace = []\<rparr> =
     (Done, \<lparr>rs_calls = 2, rs_ierr = 7,
             rs_trace = [Stderr chk_format [''86'', ''main'', ''7''],
                         Api ''gmshFinalize'' ''NULL'' None,
                         ExitedWith 0]\<rparr>)"
proof -
  note t = chk_after_every_call_in_test_and_onelab_run_auto[of "[]" 2 "\<lambda>i. if i = 1 then 7 else 0"
      "\<lparr>rs_calls = 1, rs_ierr = 7, rs_trace = []\<rparr>" "Num 0" 86 "''main''"]
  have a: "run (\<lambda>i. if i = 1 then 7 else 0) (onelab_run_auto_c_main 2) =
     [Api ''gmshInitialize'' ''0, 0, 1, 0'' (Some 0),
      Api ''gmshOpen'' ''argv[1]'' (Some 7),
      Stderr chk_format [''26'', ''main'', ''7''],
      Api ''gmshFinalize'' ''NULL'' None,
      ExitedWith 7]"
    by (simp add: run_def onelab_run_auto_c_main_def chk_def emit_def to_string_small
        del: digits_of.simps)
  from t have b: "chk_enforced Ierr (run (\<lambda>i. if i = 1 then 7 else 0) (onelab_run_auto_c_main 2))"
    by blast
  have e: "to_string 86 = ''86''" by code_simp
  from t have c: "exec (\<lambda>i. if i = 1 then 7 else 0) (chk (Num 0) 86 ''main'') \<lparr>rs_calls = 1, rs_ierr = 7, rs_trace = []\<rparr> =
     (Done, \<lparr>rs_calls = 2, rs_ierr = 7,
             rs_trace = [Stderr chk_format [''86'', ''main'', ''7''],
                         Api ''gmshFinalize'' ''NULL'' None,
                         ExitedWith 0]\<rparr>)"
    by (simp add: e to_string_small del: digits_of.simps exec.simps)
  from a b c show ?thesis by blast
qed

end
